theory Spec2Isabelle
  imports Main
begin

section \<open>The hoist launchable of p2 (pkg/hoist/hoist_launchable.go)\<close>

text \<open>
  The Go file drives the operating system and three collaborators (the runit supervisor,
  the cgroup writer, the artifact fetcher). The embedding keeps every call the code makes
  to them as an event of a trace, in the order the code makes it, and takes the answer of
  each call from an environment that sees the trace so far. A Go function that the file
  defines becomes a HOL function from the trace before the call to its results and the
  trace after it. A run-time panic is the left summand of the result. \<open>Halt\<close>, \<open>Stop\<close>,
  \<open>AppManifest\<close> and \<open>Type\<close> take no part in the properties below and are left out.
\<close>

subsection \<open>Go's path/filepath on Unix\<close>

text \<open>
  \<open>filepath.Base\<close>, \<open>Clean\<close>, \<open>Join\<close>, \<open>Dir\<close> and \<open>Rel\<close> belong to Go's standard
  library. They are pure functions of their string arguments; the definitions below
  follow the library's documented behaviour on Unix (separator \<open>/\<close>, no volume names)
  element by element. Strings are byte strings in Go and here.
\<close>

text \<open>\<open>strings.Split(s, "/")\<close>: the pieces between separators, empty pieces kept.\<close>

fun splitSep :: "string \<Rightarrow> string list" where
  "splitSep [] = [[]]"
| "splitSep (c # cs) =
     (if c = CHR ''/'' then [] # splitSep cs
      else (case splitSep cs of [] \<Rightarrow> [[c]] | x # xs \<Rightarrow> (c # x) # xs))"

text \<open>\<open>strings.Join(elems, "/")\<close>.\<close>

fun joinSep :: "string list \<Rightarrow> string" where
  "joinSep [] = []"
| "joinSep [e] = e"
| "joinSep (e # es) = e @ CHR ''/'' # joinSep es"

text \<open>
  The element loop of \<open>filepath.Clean\<close>: \<open>out\<close> holds the elements written so far,
  last one first. An empty element and \<open>.\<close> are dropped; \<open>..\<close> removes the element
  before it when there is one that is not itself \<open>..\<close>, is dropped at the root of a
  rooted path, and is kept otherwise.
\<close>

fun clean_elems :: "bool \<Rightarrow> string list \<Rightarrow> string list \<Rightarrow> string list" where
  "clean_elems rooted out [] = rev out"
| "clean_elems rooted out (e # es) =
     (if e = [] \<or> e = ''.'' then clean_elems rooted out es
      else if e = ''..'' then
        (case out of
           [] \<Rightarrow> if rooted then clean_elems rooted [] es
                 else clean_elems rooted [''..''] es
         | e1 # below \<Rightarrow>
             if e1 = ''..'' then clean_elems rooted (''..'' # out) es
             else clean_elems rooted below es)
      else clean_elems rooted (e # out) es)"

definition Clean :: "string \<Rightarrow> string" where
  "Clean path =
     (if path = [] then ''.''
      else
        let rooted = (hd path = CHR ''/'');
            out = joinSep (clean_elems rooted [] (splitSep path));
            s = (if rooted then CHR ''/'' # out else out)
        in if s = [] then ''.'' else s)"

text \<open>\<open>filepath.Join\<close>: leading empty elements are skipped, the rest is joined and cleaned.\<close>

fun Join :: "string list \<Rightarrow> string" where
  "Join [] = []"
| "Join (e # es) = (if e \<noteq> [] then Clean (joinSep (e # es)) else Join es)"

text \<open>\<open>filepath.Dir\<close>: everything up to and including the last separator, cleaned.\<close>

definition Dir :: "string \<Rightarrow> string" where
  "Dir path = Clean (rev (dropWhile (\<lambda>c. c \<noteq> CHR ''/'') (rev path)))"

text \<open>
  \<open>filepath.Base\<close>: the last element of the path. Trailing separators are removed first;
  the empty path gives \<open>.\<close>, a path of separators only gives \<open>/\<close>.
\<close>

definition Base :: "string \<Rightarrow> string" where
  "Base path =
     (if path = [] then ''.''
      else
        let stripped = rev (dropWhile (\<lambda>c. c = CHR ''/'') (rev path));
            last_elem = rev (takeWhile (\<lambda>c. c \<noteq> CHR ''/'') (rev stripped))
        in if last_elem = [] then ''/'' else last_elem)"

text \<open>
  \<open>filepath.Rel\<close> compares the cleaned base and target element by element. The elements
  of a cleaned path, as its scanning loop meets them: a rooted path starts with an empty
  element, and the root itself is that empty element alone.
\<close>

definition rel_elems :: "string \<Rightarrow> string list" where
  "rel_elems p = (if p = [] then [] else if p = ''/'' then [[]] else splitSep p)"

text \<open>
  The common leading elements are skipped. When the base is used up, the rest of the
  target is the answer. Otherwise every remaining base element costs one \<open>..\<close>, followed
  by the rest of the target. Where the remaining base starts with \<open>..\<close> the answer would
  need the name of a directory above the base, which the strings do not hold: the library
  documents an error for a target that cannot be made relative lexically (\<open>None\<close>).
\<close>

fun rel_walk :: "string list \<Rightarrow> string list \<Rightarrow> string option" where
  "rel_walk [] ts = Some (joinSep ts)"
| "rel_walk (b # bs) [] =
     (if b = ''..'' then None else Some (joinSep (replicate (length (b # bs)) ''..'')))"
| "rel_walk (b # bs) (t # ts) =
     (if b = t then rel_walk bs ts
      else if b = ''..'' then None
      else Some (joinSep (replicate (length (b # bs)) ''..'' @ (t # ts))))"

subsection \<open>Data\<close>

text \<open>A tar header, with the fields the extraction reads (\<open>archive/tar.Header\<close>).\<close>

record Header =
  hdr_Name :: string
  hdr_Linkname :: string
  hdr_Typeflag :: char
  hdr_Mode :: int

text \<open>The type flags of \<open>archive/tar\<close> that the extraction names.\<close>

definition TypeReg :: char where "TypeReg = CHR ''0''"
definition TypeRegA :: char where "TypeRegA = CHR 0x00"
definition TypeLink :: char where "TypeLink = CHR ''1''"
definition TypeSymlink :: char where "TypeSymlink = CHR ''2''"
definition TypeChar :: char where "TypeChar = CHR ''3''"
definition TypeBlock :: char where "TypeBlock = CHR ''4''"
definition TypeDir :: char where "TypeDir = CHR ''5''"
definition TypeFifo :: char where "TypeFifo = CHR ''6''"

text \<open>
  Go errors. An error of the operating system or of a library carries the class that
  \<open>os.IsNotExist\<close> and \<open>os.IsExist\<close> test and a message.
  \<open>SuperviseOkMissing\<close> is the sentinel \<open>runit.SuperviseOkMissing\<close>, compared by identity.
  \<open>Errorf\<close> is the error that \<open>util.Errorf\<close> builds: its format string and its arguments,
  kept unformatted.
\<close>

datatype errkind = NotExist | Exist | OtherKind

datatype error =
    OSError errkind string
  | SuperviseOkMissing
  | Errorf string "fmtarg list"
and fmtarg =
    ArgS string
  | ArgE error
  | ArgB char
  | ArgH Header

fun os_IsNotExist :: "error \<Rightarrow> bool" where
  "os_IsNotExist (OSError k m) = (k = NotExist)"
| "os_IsNotExist SuperviseOkMissing = False"
| "os_IsNotExist (Errorf f as) = False"

fun os_IsExist :: "error \<Rightarrow> bool" where
  "os_IsExist (OSError k m) = (k = Exist)"
| "os_IsExist SuperviseOkMissing = False"
| "os_IsExist (Errorf f as) = False"

text \<open>A run-time panic of Go: the only one the file can raise is a slice bound out of range.\<close>

datatype panic = SliceBoundsOutOfRange

text \<open>
  \<open>filepath.Rel\<close>, with its error for a target that cannot be made relative. A base or a
  target that cleans to \<open>.\<close> has no elements. The text of the error quotes the two
  arguments as they were passed.
\<close>

definition Rel :: "string \<Rightarrow> string \<Rightarrow> string \<times> error option" where
  "Rel basepath targpath =
     (let base = Clean basepath; targ = Clean targpath in
      if targ = base then (''.'', None)
      else
        let base = (if base = ''.'' then [] else base);
            targ = (if targ = ''.'' then [] else targ);
            baseSlashed = (base \<noteq> [] \<and> hd base = CHR ''/'');
            targSlashed = (targ \<noteq> [] \<and> hd targ = CHR ''/'');
            cannot = OSError OtherKind
                       (''Rel: can't make '' @ targpath @ '' relative to '' @ basepath)
        in if baseSlashed \<noteq> targSlashed then ([], Some cannot)
           else (case rel_walk (rel_elems base) (rel_elems targ) of
                   None \<Rightarrow> ([], Some cannot)
                 | Some r \<Rightarrow> (r, None)))"

text \<open>
  \<open>cgroups.Config\<close>, \<open>runit.Service\<close>, \<open>runit.ServiceBuilder\<close> and \<open>os.FileInfo\<close>, with
  the fields and methods the file uses. The types are declared outside the file; a field
  carries the prefix of its type where two types share the name.
\<close>

record Config =
  cg_Name :: string

record Service =
  sv_Path :: string
  sv_Name :: string

record ServiceBuilder =
  RunitRoot :: string

record FileInfo =
  fi_Name :: string
  fi_IsDir :: bool

text \<open>
  The launchable. Its field \<open>Id\<close> is \<open>Id_hl\<close> here (\<open>Id\<close> is the identity relation of
  HOL). The fetch callback \<open>FetchToFile\<close> is a call to the environment (the event
  \<open>FetchToFile\<close> below). \<open>Executable\<close> is declared in another file of the package; its
  fields are those the composite literal in \<open>Executables\<close> sets.
\<close>

record Launchable =
  Location :: string
  Id_hl :: string
  RunAs :: string
  ConfigDir :: string
  RootDir :: string
  Chpst :: string
  Cgexec :: string
  CgroupConfig :: Config

record Executable =
  ex_Service :: Service
  ex_ExecPath :: string
  ex_Chpst :: string
  ex_Cgexec :: string
  ex_CgroupConfig :: Config
  ex_Nolimit :: string
  ex_RunAs :: string
  ex_ConfigDir :: string

subsection \<open>Calls to the outside and their answers\<close>

datatype openflag = O_WRONLY | O_CREATE | O_TRUNC

text \<open>
  One constructor for each call the file makes to the operating system, a library with
  effects or a collaborator. An open file is named by its path. Uids, gids and file
  modes are integers (\<open>0755\<close> is 493).
\<close>

datatype call =
    CgroupsWrite Config
  | SvRestart Service
  | OsStat string
  | CmdRun string "string list"
  | IoutilReadDir string
  | IoutilTempDir string string
  | OsRemoveAll string
  | FetchToFile string string
  | OsOpen string
  | FileClose string
  | GzipNewReader string
  | GzipClose string
  | UserIDs string
  | MkdirChownAll string int int int
  | OsChown string int int
  | OsSymlink string string
  | OsMkdir string int
  | OsOpenFile string "openflag list" int
  | FileChown string int int
  | IoCopy string
  | OsLchown string int int
  | OsRename string string

text \<open>
  What the tar reader delivers from an opened archive: the headers that \<open>tr.Next()\<close>
  returns one after the other, then \<open>io.EOF\<close> (\<open>None\<close>) or a read error.
\<close>

type_synonym tar_stream = "Header list \<times> error option"

text \<open>
  The environment answers each call from the trace of the calls made before it, so the
  same call can be answered differently at different times. \<open>call_err\<close> is the error
  (\<open>None\<close> for nil) of a call that returns nothing else the code uses: the string that
  \<open>sv.Restart\<close> returns is discarded, an opened file is named by its path. \<open>os.Stat\<close>
  returns an error or the file info; \<open>cmd.Run()\<close> returns its error beside the buffer
  that collected standard output and standard error; the other calls return their values
  beside the error, as in Go.
\<close>

record env =
  call_err :: "call list \<Rightarrow> call \<Rightarrow> error option"
  os_Stat :: "call list \<Rightarrow> string \<Rightarrow> error + FileInfo"
  cmd_Run :: "call list \<Rightarrow> string \<Rightarrow> string list \<Rightarrow> string \<times> error option"
  ioutil_ReadDir :: "call list \<Rightarrow> string \<Rightarrow> FileInfo list \<times> error option"
  ioutil_TempDir :: "call list \<Rightarrow> string \<Rightarrow> string \<Rightarrow> string \<times> error option"
  user_IDs :: "call list \<Rightarrow> string \<Rightarrow> int \<times> int \<times> error option"
  gzip_NewReader :: "call list \<Rightarrow> string \<Rightarrow> tar_stream \<times> error option"

subsection \<open>Version and install directory\<close>

text \<open>
  \<open>fileName[:len(fileName)-len(".tar.gz")]\<close>: a negative upper bound panics.
\<close>

definition Version :: "Launchable \<Rightarrow> panic + string" where
  "Version hl =
     (let fileName = Base (Location hl) in
      if length fileName < length ''.tar.gz'' then Inl SliceBoundsOutOfRange
      else Inr (take (length fileName - length ''.tar.gz'') fileName))"

definition InstallDir :: "Launchable \<Rightarrow> panic + string" where
  "InstallDir hl =
     (case Version hl of
        Inl p \<Rightarrow> Inl p
      | Inr launchableName \<Rightarrow> Inr (Join [RootDir hl, ''installs'', launchableName]))"



definition Installed :: "env \<Rightarrow> Launchable \<Rightarrow> call list \<Rightarrow> (panic + bool) \<times> call list" where
  "Installed env hl t =
     (case InstallDir hl of
        Inl p \<Rightarrow> (Inl p, t)
      | Inr installDir \<Rightarrow>
          (case os_Stat env t installDir of
             Inl err \<Rightarrow> (Inr False, t @ [OsStat installDir])
           | Inr info \<Rightarrow> (Inr True, t @ [OsStat installDir])))"

subsection \<open>Lifecycle hooks\<close>

text \<open>
  \<open>invokeBinScript\<close>: stat the script, then run it under chpst with standard output and
  standard error in one buffer. Both returns after \<open>cmd.Run()\<close> give the buffer and the
  error of the run.
\<close>

definition invokeBinScript ::
  "env \<Rightarrow> Launchable \<Rightarrow> string \<Rightarrow> call list \<Rightarrow> (panic + string \<times> error option) \<times> call list" where
  "invokeBinScript env hl script t =
     (case InstallDir hl of
        Inl p \<Rightarrow> (Inl p, t)
      | Inr installDir \<Rightarrow>
          let cmdPath = Join [installDir, ''bin'', script] in
          (case os_Stat env t cmdPath of
             Inl err \<Rightarrow> (Inr ([], Some err), t @ [OsStat cmdPath])
           | Inr info \<Rightarrow>
               let t1 = t @ [OsStat cmdPath];
                   args = [''-u'', RunAs hl, ''-e'', ConfigDir hl, cmdPath]
               in (Inr (cmd_Run env t1 (Chpst hl) args), t1 @ [CmdRun (Chpst hl) args])))"

text \<open>
  The three callers share one body:
  \<open>if err != nil && !os.IsNotExist(err) { return output, err }; return output, nil\<close>.
\<close>

definition PostActivate ::
  "env \<Rightarrow> Launchable \<Rightarrow> call list \<Rightarrow> (panic + string \<times> error option) \<times> call list" where
  "PostActivate env hl t =
     (case invokeBinScript env hl ''post-activate'' t of
        (Inl p, t1) \<Rightarrow> (Inl p, t1)
      | (Inr (output, None), t1) \<Rightarrow> (Inr (output, None), t1)
      | (Inr (output, Some err), t1) \<Rightarrow>
          if \<not> os_IsNotExist err then (Inr (output, Some err), t1)
          else (Inr (output, None), t1))"

definition Disable ::
  "env \<Rightarrow> Launchable \<Rightarrow> call list \<Rightarrow> (panic + string \<times> error option) \<times> call list" where
  "Disable env hl t =
     (case invokeBinScript env hl ''disable'' t of
        (Inl p, t1) \<Rightarrow> (Inl p, t1)
      | (Inr (output, None), t1) \<Rightarrow> (Inr (output, None), t1)
      | (Inr (output, Some err), t1) \<Rightarrow>
          if \<not> os_IsNotExist err then (Inr (output, Some err), t1)
          else (Inr (output, None), t1))"

definition Enable ::
  "env \<Rightarrow> Launchable \<Rightarrow> call list \<Rightarrow> (panic + string \<times> error option) \<times> call list" where
  "Enable env hl t =
     (case invokeBinScript env hl ''enable'' t of
        (Inl p, t1) \<Rightarrow> (Inl p, t1)
      | (Inr (output, None), t1) \<Rightarrow> (Inr (output, None), t1)
      | (Inr (output, Some err), t1) \<Rightarrow>
          if \<not> os_IsNotExist err then (Inr (output, Some err), t1)
          else (Inr (output, None), t1))"

subsection \<open>Executable discovery\<close>

text \<open>The body of the loop over \<open>services\<close>: one executable for one directory entry.\<close>

definition mkExecutable ::
  "Launchable \<Rightarrow> ServiceBuilder \<Rightarrow> string \<Rightarrow> FileInfo \<Rightarrow> Executable" where
  "mkExecutable hl serviceBuilder serviceDir service =
     (let serviceName = Id_hl hl @ ''__'' @ fi_Name service in
      \<lparr> ex_Service = \<lparr> sv_Path = Join [RunitRoot serviceBuilder, serviceName],
                        sv_Name = serviceName \<rparr>,
        ex_ExecPath = Join [serviceDir, fi_Name service],
        ex_Chpst = Chpst hl,
        ex_Cgexec = Cgexec hl,
        ex_CgroupConfig = CgroupConfig hl,
        ex_Nolimit = ''/usr/bin/nolimit'',
        ex_RunAs = RunAs hl,
        ex_ConfigDir = ConfigDir hl \<rparr>)"

definition Executables ::
  "env \<Rightarrow> Launchable \<Rightarrow> ServiceBuilder \<Rightarrow> call list
     \<Rightarrow> (panic + Executable list \<times> error option) \<times> call list" where
  "Executables env hl serviceBuilder t =
     (case Installed env hl t of
        (Inl p, t1) \<Rightarrow> (Inl p, t1)
      | (Inr False, t1) \<Rightarrow>
          (Inr ([], Some (Errorf ''%s is not installed'' [ArgS (Id_hl hl)])), t1)
      | (Inr True, t1) \<Rightarrow>
          (case InstallDir hl of
             Inl p \<Rightarrow> (Inl p, t1)
           | Inr installDir \<Rightarrow>
               let binLaunchPath = Join [installDir, ''bin'', ''launch''];
                   t2 = t1 @ [OsStat binLaunchPath]
               in (case os_Stat env t1 binLaunchPath of
                     Inl err \<Rightarrow> (Inr ([], Some (Errorf ''%s'' [ArgE err])), t2)
                   | Inr binLaunchInfo \<Rightarrow>
                       if fi_IsDir binLaunchInfo then
                         (case ioutil_ReadDir env t2 binLaunchPath of
                            (services, Some err) \<Rightarrow>
                              (Inr ([], Some err), t2 @ [IoutilReadDir binLaunchPath])
                          | (services, None) \<Rightarrow>
                              (Inr (map (mkExecutable hl serviceBuilder binLaunchPath) services,
                                    None),
                               t2 @ [IoutilReadDir binLaunchPath]))
                       else
                         (Inr (map (mkExecutable hl serviceBuilder (Dir binLaunchPath))
                                 [binLaunchInfo], None),
                          t2))))"

subsection \<open>Start and Launch\<close>

text \<open>
  The loop of \<open>Start\<close>:
  \<open>_, err := sv.Restart(&executable.Service); if err != runit.SuperviseOkMissing { return err }\<close>.
\<close>

fun Start_loop :: "env \<Rightarrow> Executable list \<Rightarrow> call list \<Rightarrow> error option \<times> call list" where
  "Start_loop env [] t = (None, t)"
| "Start_loop env (executable # rest) t =
     (let err = call_err env t (SvRestart (ex_Service executable));
          t1 = t @ [SvRestart (ex_Service executable)]
      in if err \<noteq> Some SuperviseOkMissing then (err, t1)
         else Start_loop env rest t1)"

definition Start ::
  "env \<Rightarrow> Launchable \<Rightarrow> ServiceBuilder \<Rightarrow> call list \<Rightarrow> (panic + error option) \<times> call list" where
  "Start env hl serviceBuilder t =
     (case Executables env hl serviceBuilder t of
        (Inl p, t1) \<Rightarrow> (Inl p, t1)
      | (Inr (executables, Some err), t1) \<Rightarrow> (Inr (Some err), t1)
      | (Inr (executables, None), t1) \<Rightarrow>
          (case Start_loop env executables t1 of (err, t2) \<Rightarrow> (Inr err, t2)))"

definition Launch ::
  "env \<Rightarrow> Launchable \<Rightarrow> ServiceBuilder \<Rightarrow> call list \<Rightarrow> (panic + error option) \<times> call list" where
  "Launch env hl serviceBuilder t =
     (let t1 = t @ [CgroupsWrite (CgroupConfig hl)] in
      case call_err env t (CgroupsWrite (CgroupConfig hl)) of
        Some err \<Rightarrow>
          (Inr (Some (Errorf ''Could not configure cgroup %s: %s''
                        [ArgS (cg_Name (CgroupConfig hl)), ArgE err])), t1)
      | None \<Rightarrow>
          (case Start env hl serviceBuilder t1 of
             (Inl p, t2) \<Rightarrow> (Inl p, t2)
           | (Inr (Some err), t2) \<Rightarrow>
               (Inr (Some (Errorf ''Could not launch %s: %s'' [ArgS (Id_hl hl), ArgE err])), t2)
           | (Inr None, t2) \<Rightarrow>
               (case Enable env hl t2 of
                  (Inl p, t3) \<Rightarrow> (Inl p, t3)
                | (Inr (output, err), t3) \<Rightarrow> (Inr err, t3))))"

subsection \<open>Extraction\<close>

text \<open>
  One iteration of the \<open>for\<close> loop of \<open>extractTarGz\<close>, for the header that
  \<open>tr.Next()\<close> returned: \<open>Some err\<close> is \<open>return err\<close>, \<open>None\<close> goes on to the next
  iteration. \<open>deferred\<close> collects the \<open>defer f.Close()\<close> of the regular files, newest
  first; they run when \<open>extractTarGz\<close> returns. The \<open>switch\<close> on the type flag takes the
  first case that matches. The mode passed to \<open>os.Mkdir\<close> and \<open>os.OpenFile\<close> is the one
  \<open>hdr.FileInfo().Mode()\<close> derives from the header; the event records the header's mode.
\<close>

definition extract_entry ::
  "env \<Rightarrow> Launchable \<Rightarrow> string \<Rightarrow> string \<Rightarrow> int \<Rightarrow> int \<Rightarrow> Header
     \<Rightarrow> call list \<Rightarrow> call list \<Rightarrow> error option \<times> call list \<times> call list" where
  "extract_entry env hl fpName dest uid gid hdr deferred t =
     (let fpath = Join [dest, hdr_Name hdr] in
      if hdr_Typeflag hdr = TypeSymlink then
        (case call_err env t (OsSymlink (hdr_Linkname hdr) fpath) of
           Some err \<Rightarrow>
             (Some (Errorf ''Unable to create destination symlink %s (to %s) when unpacking %s: %s''
                      [ArgS fpath, ArgS (hdr_Linkname hdr), ArgS fpName, ArgE err]),
              deferred, t @ [OsSymlink (hdr_Linkname hdr) fpath])
         | None \<Rightarrow> (None, deferred, t @ [OsSymlink (hdr_Linkname hdr) fpath]))
      else if hdr_Typeflag hdr = TypeLink then
        (case Rel (Dir (hdr_Name hdr)) (hdr_Linkname hdr) of
           (linkTarget, Some err) \<Rightarrow>
             (Some (Errorf ''Unable to resolve relative path for hardlink %s (to %s) when unpacking %s: %s''
                      [ArgS fpath, ArgS (hdr_Linkname hdr), ArgS fpName, ArgE err]),
              deferred, t)
         | (linkTarget, None) \<Rightarrow>
             (case call_err env t (OsSymlink linkTarget fpath) of
                Some err \<Rightarrow>
                  (Some (Errorf ''Unable to create destination symlink %s (resolved %s to %s) when unpacking %s: %s''
                           [ArgS fpath, ArgS linkTarget, ArgS (hdr_Linkname hdr), ArgS fpName,
                            ArgE err]),
                   deferred, t @ [OsSymlink linkTarget fpath])
              | None \<Rightarrow> (None, deferred, t @ [OsSymlink linkTarget fpath])))
      else if hdr_Typeflag hdr = TypeDir then
        (let t1 = t @ [OsMkdir fpath (hdr_Mode hdr)];
             t2 = t1 @ [OsChown fpath uid gid];
             mkdir_failed =
               (case call_err env t (OsMkdir fpath (hdr_Mode hdr)) of
                  None \<Rightarrow> None
                | Some err \<Rightarrow> if \<not> os_IsExist err then Some err else None)
         in case mkdir_failed of
              Some err \<Rightarrow>
                (Some (Errorf ''Unable to create destination directory %s when unpacking %s: %s''
                         [ArgS fpath, ArgS fpName, ArgE err]),
                 deferred, t1)
            | None \<Rightarrow>
                (case call_err env t1 (OsChown fpath uid gid) of
                   Some err \<Rightarrow>
                     (Some (Errorf ''Unable to chown destination directory %s to %s when unpacking %s: %s''
                              [ArgS fpath, ArgS (RunAs hl), ArgS fpName, ArgE err]),
                      deferred, t2)
                 | None \<Rightarrow> (None, deferred, t2)))
      else if hdr_Typeflag hdr = TypeReg \<or> hdr_Typeflag hdr = TypeRegA then
        (let t1 = t @ [OsOpenFile fpath [O_WRONLY, O_CREATE, O_TRUNC] (hdr_Mode hdr)];
             t2 = t1 @ [FileChown fpath uid gid];
             t3 = t2 @ [IoCopy fpath];
             t4 = t3 @ [FileClose fpath];
             deferred1 = FileClose fpath # deferred
         in case call_err env t (OsOpenFile fpath [O_WRONLY, O_CREATE, O_TRUNC] (hdr_Mode hdr)) of
              Some err \<Rightarrow>
                (Some (Errorf ''Unable to open destination file %s when unpacking %s: %s''
                         [ArgS fpath, ArgS fpName, ArgE err]),
                 deferred, t1)
            | None \<Rightarrow>
                (case call_err env t1 (FileChown fpath uid gid) of
                   Some err \<Rightarrow>
                     (Some (Errorf ''Unable to chown destination file %s to %s when unpacking %s: %s''
                              [ArgS fpath, ArgS (RunAs hl), ArgS fpName, ArgE err]),
                      deferred1, t2)
                 | None \<Rightarrow>
                     (case call_err env t2 (IoCopy fpath) of
                        Some err \<Rightarrow>
                          (Some (Errorf ''Unable to copy into destination file %s when unpacking %s: %s''
                                   [ArgS fpath, ArgS fpName, ArgE err]),
                           deferred1, t3)
                      | None \<Rightarrow> (None, deferred1, t4))))
      else
        (Some (Errorf ''Unhandled type flag %q (header %v) when unpacking %s''
                 [ArgB (hdr_Typeflag hdr), ArgH hdr, ArgS fpName]),
         deferred, t))"

text \<open>
  The loop over the headers the tar reader delivers: at the end of the archive \<open>io.EOF\<close>
  leaves the loop, any other error of \<open>tr.Next()\<close> is returned.
\<close>

fun extract_entries ::
  "env \<Rightarrow> Launchable \<Rightarrow> string \<Rightarrow> string \<Rightarrow> int \<Rightarrow> int \<Rightarrow> Header list \<Rightarrow> error option
     \<Rightarrow> call list \<Rightarrow> call list \<Rightarrow> error option \<times> call list \<times> call list" where
  "extract_entries env hl fpName dest uid gid [] tail_err deferred t =
     (case tail_err of
        None \<Rightarrow> (None, deferred, t)
      | Some err \<Rightarrow> (Some (Errorf ''Unable to read %s: %s'' [ArgS fpName, ArgE err]), deferred, t))"
| "extract_entries env hl fpName dest uid gid (hdr # rest) tail_err deferred t =
     (case extract_entry env hl fpName dest uid gid hdr deferred t of
        (Some err, deferred1, t1) \<Rightarrow> (Some err, deferred1, t1)
      | (None, deferred1, t1) \<Rightarrow>
          extract_entries env hl fpName dest uid gid rest tail_err deferred1 t1)"

text \<open>
  \<open>extractTarGz\<close> after \<open>defer fz.Close()\<close>: the ids of the user, the destination root,
  the entries, and on return the deferred closes of the files.
\<close>

definition extractTarGz_body ::
  "env \<Rightarrow> Launchable \<Rightarrow> string \<Rightarrow> string \<Rightarrow> tar_stream \<Rightarrow> call list
     \<Rightarrow> error option \<times> call list" where
  "extractTarGz_body env hl fpName dest stream t =
     (let t1 = t @ [UserIDs (RunAs hl)] in
      case user_IDs env t (RunAs hl) of
        (uid, gid, Some err) \<Rightarrow> (Some err, t1)
      | (uid, gid, None) \<Rightarrow>
          (let t2 = t1 @ [MkdirChownAll dest uid gid 493];
               t3 = t2 @ [OsChown dest uid gid]
           in case call_err env t1 (MkdirChownAll dest uid gid 493) of
                Some err \<Rightarrow>
                  (Some (Errorf ''Unable to create root directory %s when unpacking %s: %s''
                           [ArgS dest, ArgS fpName, ArgE err]), t2)
              | None \<Rightarrow>
                  (case call_err env t2 (OsChown dest uid gid) of
                     Some err \<Rightarrow>
                       (Some (Errorf ''Unable to chown root directory %s to %s when unpacking %s: %s''
                                [ArgS dest, ArgS (RunAs hl), ArgS fpName, ArgE err]), t3)
                   | None \<Rightarrow>
                       (case extract_entries env hl fpName dest uid gid
                               (fst stream) (snd stream) [] t3 of
                          (err, deferred, t4) \<Rightarrow> (err, t4 @ deferred)))))"

definition extractTarGz ::
  "env \<Rightarrow> Launchable \<Rightarrow> string \<Rightarrow> string \<Rightarrow> call list \<Rightarrow> error option \<times> call list" where
  "extractTarGz env hl fpName dest t =
     (let t1 = t @ [GzipNewReader fpName] in
      case gzip_NewReader env t fpName of
        (stream, Some err) \<Rightarrow> (Some (Errorf ''Unable to create gzip reader: %s'' [ArgE err]), t1)
      | (stream, None) \<Rightarrow>
          (case extractTarGz_body env hl fpName dest stream t1 of
             (err, t2) \<Rightarrow> (err, t2 @ [GzipClose fpName])))"

subsection \<open>Install\<close>

text \<open>
  \<open>Install\<close> after \<open>defer os.RemoveAll(outDir)\<close>, up to its return; the deferred
  \<open>fd.Close()\<close> runs once the file has been opened.
\<close>

definition Install_body ::
  "env \<Rightarrow> Launchable \<Rightarrow> string \<Rightarrow> error option \<Rightarrow> call list
     \<Rightarrow> (panic + error option) \<times> call list" where
  "Install_body env hl outDir tmp_err t =
     (case tmp_err of
        Some err \<Rightarrow>
          (case Version hl of
             Inl p \<Rightarrow> (Inl p, t)
           | Inr v \<Rightarrow>
               (Inr (Some (Errorf ''Could not create temporary directory to install %s: %s''
                             [ArgS v, ArgE err])), t))
      | None \<Rightarrow>
          (case Version hl of
             Inl p \<Rightarrow> (Inl p, t)
           | Inr v \<Rightarrow>
               let outPath = Join [outDir, v];
                   t1 = t @ [FetchToFile (Location hl) outPath];
                   t2 = t1 @ [OsOpen outPath]
               in (case call_err env t (FetchToFile (Location hl) outPath) of
                     Some err \<Rightarrow> (Inr (Some err), t1)
                   | None \<Rightarrow>
                       (case call_err env t1 (OsOpen outPath) of
                          Some err \<Rightarrow> (Inr (Some err), t2)
                        | None \<Rightarrow>
                            (case InstallDir hl of
                               Inl p \<Rightarrow> (Inl p, t2 @ [FileClose outPath])
                             | Inr installDir \<Rightarrow>
                                 (case extractTarGz env hl outPath installDir t2 of
                                    (err, t3) \<Rightarrow> (Inr err, t3 @ [FileClose outPath])))))))"

definition Install ::
  "env \<Rightarrow> Launchable \<Rightarrow> call list \<Rightarrow> (panic + error option) \<times> call list" where
  "Install env hl t =
     (case Installed env hl t of
        (Inl p, t1) \<Rightarrow> (Inl p, t1)
      | (Inr True, t1) \<Rightarrow> (Inr None, t1)
      | (Inr False, t1) \<Rightarrow>
          (case Version hl of
             Inl p \<Rightarrow> (Inl p, t1)
           | Inr v \<Rightarrow>
               (case ioutil_TempDir env t1 [] v of
                  (outDir, tmp_err) \<Rightarrow>
                    (case Install_body env hl outDir tmp_err (t1 @ [IoutilTempDir [] v]) of
                       (r, t2) \<Rightarrow> (r, t2 @ [OsRemoveAll outDir])))))"

subsection \<open>The pointers current and last\<close>





subsection \<open>Concrete launchables and hosts\<close>

text \<open>A launchable as the preparer builds it, and the runit service builder.\<close>

definition demo_hl :: Launchable where
  "demo_hl =
     \<lparr> Location = ''http://artifacts.example/hoist/myapp_1.2.3.tar.gz'',
       Id_hl = ''myapp'',
       RunAs = ''appuser'',
       ConfigDir = ''/data/pods/myapp/env'',
       RootDir = ''/data/pods/myapp'',
       Chpst = ''/usr/bin/chpst'',
       Cgexec = ''/usr/bin/cgexec'',
       CgroupConfig = \<lparr> cg_Name = ''myapp'' \<rparr> \<rparr>"

text \<open>The same launchable with a location whose base name is shorter than the suffix.\<close>

definition short_hl :: Launchable where
  "short_hl = demo_hl \<lparr> Location := ''x.gz'' \<rparr>"

definition demo_sb :: ServiceBuilder where
  "demo_sb = \<lparr> RunitRoot = ''/var/service'' \<rparr>"

text \<open>An archive with a regular file and a hard link to it in another directory.\<close>

definition link_hdr :: Header where
  "link_hdr =
     \<lparr> hdr_Name = ''a/c/link'', hdr_Linkname = ''a/b/target'', hdr_Typeflag = TypeLink,
       hdr_Mode = 420 \<rparr>"

text \<open>A hard link at the top of the archive whose link name is an absolute path.\<close>

definition abs_link_hdr :: Header where
  "abs_link_hdr =
     \<lparr> hdr_Name = ''top'', hdr_Linkname = ''/abs/target'', hdr_Typeflag = TypeLink,
       hdr_Mode = 420 \<rparr>"

definition demo_archive :: tar_stream where
  "demo_archive =
     ([\<lparr> hdr_Name = ''a/b/target'', hdr_Linkname = [], hdr_Typeflag = TypeReg, hdr_Mode = 420 \<rparr>,
       link_hdr], None)"

text \<open>An archive with a FIFO between two regular files.\<close>

definition fifo_hdr :: Header where
  "fifo_hdr =
     \<lparr> hdr_Name = ''a/pipe'', hdr_Linkname = [], hdr_Typeflag = TypeFifo, hdr_Mode = 420 \<rparr>"

definition fifo_archive :: tar_stream where
  "fifo_archive =
     ([\<lparr> hdr_Name = ''a/first'', hdr_Linkname = [], hdr_Typeflag = TypeReg, hdr_Mode = 420 \<rparr>,
       fifo_hdr,
       \<lparr> hdr_Name = ''a/second'', hdr_Linkname = [], hdr_Typeflag = TypeReg, hdr_Mode = 420 \<rparr>],
      None)"

text \<open>
  A host on which every call succeeds: every path exists, \<open>bin/launch\<close> is a directory
  with the entries \<open>web\<close> and \<open>worker\<close>, and every archive is \<open>demo_archive\<close>.
\<close>

definition env_ok :: env where
  "env_ok =
     \<lparr> call_err = (\<lambda>t c. None),
       os_Stat = (\<lambda>t p. Inr \<lparr> fi_Name = Base p, fi_IsDir = (Base p = ''launch'') \<rparr>),
       cmd_Run = (\<lambda>t c args. ([], None)),
       ioutil_ReadDir = (\<lambda>t p. ([\<lparr> fi_Name = ''web'', fi_IsDir = False \<rparr>,
                                    \<lparr> fi_Name = ''worker'', fi_IsDir = False \<rparr>], None)),
       ioutil_TempDir = (\<lambda>t d p. (Join [if d = [] then ''/tmp'' else d, p @ ''123456''], None)),
       user_IDs = (\<lambda>t u. (1000, 1000, None)),
       gzip_NewReader = (\<lambda>t p. (demo_archive, None)) \<rparr>"

text \<open>A host on which nothing is installed yet: every stat fails with a not-exist error.\<close>

definition env_fresh :: env where
  "env_fresh =
     env_ok \<lparr> os_Stat := (\<lambda>t p. Inl (OSError NotExist ''no such file or directory'')) \<rparr>"

text \<open>The fresh host, fetching the archive with the FIFO.\<close>

definition env_fifo :: env where
  "env_fifo = env_fresh \<lparr> gzip_NewReader := (\<lambda>t p. (fifo_archive, None)) \<rparr>"

text \<open>
  A host on which the hook scripts exist and the chpst binary does not:
  \<open>cmd.Run()\<close> fails in fork/exec with ENOENT, an error for which \<open>os.IsNotExist\<close> holds.
\<close>

definition env_chpst_missing :: env where
  "env_chpst_missing =
     env_ok \<lparr> cmd_Run := (\<lambda>t c args.
        ([], Some (OSError NotExist ''fork/exec /usr/bin/chpst: no such file or directory''))) \<rparr>"

text \<open>A host on which writing the cgroup configuration fails.\<close>

definition env_cgroup_fails :: env where
  "env_cgroup_fails =
     env_ok \<lparr> call_err := (\<lambda>t c.
        if c = CgroupsWrite (CgroupConfig demo_hl) then Some (OSError OtherKind ''permission denied'')
        else None) \<rparr>"


text \<open>
  A host with a disk that starts empty: a path exists once the trace holds the call that
  created it as the root of an extraction.
\<close>

definition created_by :: "string \<Rightarrow> call \<Rightarrow> bool" where
  "created_by p c = (case c of MkdirChownAll q uid gid mode \<Rightarrow> q = p | _ \<Rightarrow> False)"

definition env_disk :: env where
  "env_disk =
     env_ok \<lparr> os_Stat := (\<lambda>t p.
        if list_ex (created_by p) t then Inr \<lparr> fi_Name = Base p, fi_IsDir = True \<rparr>
        else Inl (OSError NotExist ''no such file or directory'')) \<rparr>"

text \<open>The calls of the first \<open>Install\<close> of \<open>demo_hl\<close> on that host.\<close>

definition first_install_trace :: "call list" where
  "first_install_trace =
     [OsStat ''/data/pods/myapp/installs/myapp_1.2.3'',
      IoutilTempDir [] ''myapp_1.2.3'',
      FetchToFile ''http://artifacts.example/hoist/myapp_1.2.3.tar.gz''
        ''/tmp/myapp_1.2.3123456/myapp_1.2.3'',
      OsOpen ''/tmp/myapp_1.2.3123456/myapp_1.2.3'',
      GzipNewReader ''/tmp/myapp_1.2.3123456/myapp_1.2.3'',
      UserIDs ''appuser'',
      MkdirChownAll ''/data/pods/myapp/installs/myapp_1.2.3'' 1000 1000 493,
      OsChown ''/data/pods/myapp/installs/myapp_1.2.3'' 1000 1000,
      OsOpenFile ''/data/pods/myapp/installs/myapp_1.2.3/a/b/target''
        [O_WRONLY, O_CREATE, O_TRUNC] 420,
      FileChown ''/data/pods/myapp/installs/myapp_1.2.3/a/b/target'' 1000 1000,
      IoCopy ''/data/pods/myapp/installs/myapp_1.2.3/a/b/target'',
      FileClose ''/data/pods/myapp/installs/myapp_1.2.3/a/b/target'',
      OsSymlink ''../b/target'' ''/data/pods/myapp/installs/myapp_1.2.3/a/c/link'',
      FileClose ''/data/pods/myapp/installs/myapp_1.2.3/a/b/target'',
      GzipClose ''/tmp/myapp_1.2.3123456/myapp_1.2.3'',
      FileClose ''/tmp/myapp_1.2.3123456/myapp_1.2.3'',
      OsRemoveAll ''/tmp/myapp_1.2.3123456'']"

subsection \<open>Calls that touch a path\<close>

text \<open>
  \<open>touches c q\<close>: the call \<open>c\<close> creates, changes, moves or removes the directory entry
  at the path \<open>q\<close> itself. \<open>os.RemoveAll\<close> removes its argument and everything below it.
  A stat, a directory listing, a user lookup and the calls on collaborators touch no
  path; the directory that \<open>ioutil.TempDir\<close> creates is named by its answer, not by
  the call.
\<close>

fun touches :: "call \<Rightarrow> string \<Rightarrow> bool" where
  "touches (OsSymlink target p) q = (p = q)"
| "touches (OsLchown p uid gid) q = (p = q)"
| "touches (OsRename old new) q = (old = q \<or> new = q)"
| "touches (OsRemoveAll p) q = (p = q \<or> take (Suc (length p)) q = p @ ''/'')"
| "touches (OsMkdir p mode) q = (p = q)"
| "touches (MkdirChownAll p uid gid mode) q = (p = q)"
| "touches (OsChown p uid gid) q = (p = q)"
| "touches (OsOpenFile p flags mode) q = (p = q)"
| "touches (FileChown p uid gid) q = (p = q)"
| "touches (IoCopy p) q = (p = q)"
| "touches (FetchToFile location p) q = (p = q)"
| "touches (CgroupsWrite cfg) q = False"
| "touches (SvRestart s) q = False"
| "touches (OsStat p) q = False"
| "touches (CmdRun c args) q = False"
| "touches (IoutilReadDir p) q = False"
| "touches (IoutilTempDir d prefix) q = False"
| "touches (OsOpen p) q = False"
| "touches (FileClose p) q = False"
| "touches (GzipNewReader p) q = False"
| "touches (GzipClose p) q = False"
| "touches (UserIDs u) q = False"

subsection \<open>Cleaned paths\<close>

text \<open>
  The shape of the element list that \<open>filepath.Clean\<close> produces: plain names (not empty,
  not \<open>.\<close>, not \<open>..\<close>, without a separator) after leading \<open>..\<close> elements, none of those in
  a rooted path. \<open>root_prefix\<close> is the separator a rooted path starts with.
\<close>

definition plain :: "string \<Rightarrow> bool" where
  "plain e = (e \<noteq> [] \<and> e \<noteq> ''.'' \<and> e \<noteq> ''..'' \<and> CHR ''/'' \<notin> set e)"

definition cleaned :: "bool \<Rightarrow> string list \<Rightarrow> bool" where
  "cleaned r es =
     (\<exists>n ps. es = replicate n ''..'' @ ps \<and> (\<forall>p\<in>set ps. plain p) \<and> (r \<longrightarrow> n = 0))"

definition root_prefix :: "bool \<Rightarrow> string" where
  "root_prefix r = (if r then ''/'' else [])"

text \<open>The path that \<open>filepath.Clean\<close> writes for a cleaned element list.\<close>

definition render :: "bool \<Rightarrow> string list \<Rightarrow> string" where
  "render r S = (let s = root_prefix r @ joinSep S in if s = [] then ''.'' else s)"

section \<open>Properties\<close>

subsection \<open>Evaluation of the concrete launchables\<close>

lemma InstallDir_demo_hl: "InstallDir demo_hl = Inr ''/data/pods/myapp/installs/myapp_1.2.3''"
  by (simp add: InstallDir_def Version_def Base_def demo_hl_def Clean_def)

lemma first_install_on_env_disk: "Install env_disk demo_hl [] = (Inr None, first_install_trace)"
  by (simp add: Install_def Installed_def InstallDir_demo_hl Install_body_def extractTarGz_def
      extractTarGz_body_def extract_entry_def env_disk_def env_ok_def demo_archive_def
      link_hdr_def created_by_def first_install_trace_def Let_def Clean_def Rel_def Dir_def
      rel_elems_def TypeReg_def TypeRegA_def TypeLink_def TypeSymlink_def TypeDir_def
      Version_def Base_def)
    (simp add: demo_hl_def)

lemma stat_after_first_install:
  "os_Stat env_disk first_install_trace ''/data/pods/myapp/installs/myapp_1.2.3''
     = Inr \<lparr> fi_Name = ''myapp_1.2.3'', fi_IsDir = True \<rparr>"
  by (simp add: env_disk_def first_install_trace_def created_by_def Base_def)

subsection \<open>Splitting, joining and cleaning paths\<close>

lemma splitSep_not_Nil: "splitSep xs \<noteq> []"
  by (induction xs) (auto split: list.splits)

lemma splitSep_append_sep: "splitSep (xs @ CHR ''/'' # ys) = splitSep xs @ splitSep ys"
proof (induction xs)
  case Nil
  then show ?case by simp
next
  case (Cons c xs)
  then show ?case
    using splitSep_not_Nil [of xs] by (cases "splitSep xs") (auto split: list.splits)
qed

lemma splitSep_no_sep: "CHR ''/'' \<notin> set xs \<Longrightarrow> splitSep xs = [xs]"
  by (induction xs) auto

lemma splitSep_elems_no_sep: "e \<in> set (splitSep xs) \<Longrightarrow> CHR ''/'' \<notin> set e"
proof (induction xs arbitrary: e)
  case Nil
  then show ?case by simp
next
  case (Cons c xs)
  then show ?case
    using splitSep_not_Nil [of xs]
    by (cases "splitSep xs") (auto split: if_splits)
qed

lemma clean_elems_append:
  "clean_elems r out (es1 @ es2) = clean_elems r (rev (clean_elems r out es1)) es2"
  by (induction es1 arbitrary: out) (auto split: list.splits)

lemma joinSep_snoc: "xs \<noteq> [] \<Longrightarrow> joinSep (xs @ [e]) = joinSep xs @ CHR ''/'' # e"
  by (induction xs rule: joinSep.induct) auto

lemma splitSep_joinSep:
  "xs \<noteq> [] \<Longrightarrow> \<forall>e\<in>set xs. CHR ''/'' \<notin> set e \<Longrightarrow> splitSep (joinSep xs) = xs"
proof (induction xs rule: joinSep.induct)
  case 1
  then show ?case by simp
next
  case (2 e)
  then show ?case by (simp add: splitSep_no_sep)
next
  case (3 e v va)
  then show ?case by (simp add: splitSep_append_sep splitSep_no_sep)
qed

lemma cleaned_Nil: "cleaned r []"
  by (simp add: cleaned_def)

lemma clean_elems_cleaned:
  assumes "cleaned r (rev out)" and "\<forall>e\<in>set es. CHR ''/'' \<notin> set e"
  shows "cleaned r (clean_elems r out es)"
  using assms
proof (induction es arbitrary: out)
  case Nil
  then show ?case by simp
next
  case (Cons e es)
  from Cons.prems(1) obtain n ps where
    out: "rev out = replicate n ''..'' @ ps" and ps: "\<forall>p\<in>set ps. plain p" and r: "r \<longrightarrow> n = 0"
    by (auto simp: cleaned_def)
  have rest: "\<forall>e\<in>set es. CHR ''/'' \<notin> set e" using Cons.prems(2) by simp
  show ?case
  proof (cases "e = [] \<or> e = ''.''")
    case True
    then show ?thesis using Cons.IH [OF Cons.prems(1) rest] by auto
  next
    case False
    note nontrivial = False
    show ?thesis
    proof (cases "e = ''..''")
      case True
      show ?thesis
      proof (cases out)
        case Nil
        show ?thesis
        proof (cases r)
          case True
          then show ?thesis
            using \<open>e = ''..''\<close> Nil Cons.IH [of "[]", OF _ rest] by (simp add: cleaned_Nil)
        next
          case False
          have "cleaned r (rev [''..''])"
            using False by (auto simp: cleaned_def intro!: exI [of _ "Suc 0"] exI [of _ "[]"])
          then show ?thesis
            using \<open>e = ''..''\<close> Nil False Cons.IH [of "[''..'']", OF _ rest] by simp
        qed
      next
        case (Cons e1 below)
        show ?thesis
        proof (cases "e1 = ''..''")
          case True
          with Cons out have "ps = []"
          proof -
            have "last (rev out) = ''..''" using Cons True by simp
            show ?thesis
            proof (rule ccontr)
              assume "ps \<noteq> []"
              then have "last (rev out) = last ps" using out by simp
              moreover have "plain (last ps)" using ps \<open>ps \<noteq> []\<close> by simp
              ultimately show False using \<open>last (rev out) = ''..''\<close> by (simp add: plain_def)
            qed
          qed
          with out have "rev (''..'' # out) = replicate (Suc n) ''..'' @ []"
            by (simp add: replicate_append_same)
          moreover have "\<not> r"
          proof
            assume r
            with \<open>r \<longrightarrow> n = 0\<close> out \<open>ps = []\<close> Cons show False by simp
          qed
          ultimately have "cleaned r (rev (''..'' # out))"
            unfolding cleaned_def by (intro exI [of _ "Suc n"] exI [of _ "[]"]) simp
          then show ?thesis
            using \<open>e = ''..''\<close> Cons True Cons.IH [of "''..'' # out", OF _ rest] by simp
        next
          case False
          have "rev below = butlast (rev out)" using Cons by simp
          have "ps \<noteq> []"
          proof
            assume "ps = []"
            with out have "last (rev out) = ''..''" using Cons
              by (cases n) (auto simp: replicate_append_same [symmetric] simp del: replicate_Suc)
            with Cons False show False by simp
          qed
          then have "rev below = replicate n ''..'' @ butlast ps"
            using out \<open>rev below = butlast (rev out)\<close> by (simp add: butlast_append)
          moreover have "\<forall>p\<in>set (butlast ps). plain p"
            using ps by (meson in_set_butlastD)
          ultimately have "cleaned r (rev below)"
            unfolding cleaned_def using r by blast
          then show ?thesis
            using \<open>e = ''..''\<close> Cons False Cons.IH [of below, OF _ rest] by simp
        qed
      qed
    next
      case False
      then have "plain e" using nontrivial Cons.prems(2) by (simp add: plain_def)
      then have "cleaned r (rev (e # out))"
        unfolding cleaned_def using out ps r
        by (intro exI [of _ n] exI [of _ "ps @ [e]"]) auto
      then show ?thesis
        using False nontrivial Cons.IH [of "e # out", OF _ rest] by simp
    qed
  qed
qed

lemma cleaned_dotdot:
  assumes "cleaned r (P @ ''..'' # Q)"
  shows "\<not> r \<and> P = replicate (length P) ''..''"
proof -
  from assms obtain n ps where
    eq: "P @ ''..'' # Q = replicate n ''..'' @ ps" and ps: "\<forall>p\<in>set ps. plain p"
    and r: "r \<longrightarrow> n = 0"
    by (auto simp: cleaned_def)
  from eq obtain us where
    "(P = replicate n ''..'' @ us \<and> us @ ''..'' # Q = ps)
     \<or> (P @ us = replicate n ''..'' \<and> ''..'' # Q = us @ ps)"
    by (auto simp: append_eq_append_conv2)
  then show ?thesis
  proof
    assume "P = replicate n ''..'' @ us \<and> us @ ''..'' # Q = ps"
    then have "''..'' \<in> set ps" by auto
    with ps show ?thesis by (auto simp: plain_def)
  next
    assume a: "P @ us = replicate n ''..'' \<and> ''..'' # Q = us @ ps"
    have "us \<noteq> []"
    proof
      assume "us = []"
      with a have "''..'' \<in> set ps" by (metis append_Nil list.set_intros(1))
      with ps show False by (auto simp: plain_def)
    qed
    with a have "n \<noteq> 0" by (cases n) auto
    with r have "\<not> r" by blast
    moreover have "\<forall>x\<in>set P. x = ''..''"
    proof
      fix x assume "x \<in> set P"
      then have "x \<in> set (replicate n ''..'')" using a by (metis Un_iff set_append)
      then show "x = ''..''" by simp
    qed
    then have "P = replicate (length P) ''..''"
      by (simp add: replicate_length_same)
    ultimately show ?thesis by blast
  qed
qed

lemma cleaned_elem:
  assumes "cleaned r es" and "e \<in> set es" and "e \<noteq> ''..''"
  shows "plain e"
  using assms by (auto simp: cleaned_def)

lemma clean_elems_idem_gen:
  "cleaned r (P @ Q) \<Longrightarrow> clean_elems r (rev P) Q = P @ Q"
proof (induction Q arbitrary: P)
  case Nil
  then show ?case by simp
next
  case (Cons e Q)
  have next_step: "clean_elems r (rev (P @ [e])) Q = (P @ [e]) @ Q"
    using Cons.IH [of "P @ [e]"] Cons.prems by simp
  show ?case
  proof (cases "e = ''..''")
    case True
    with Cons.prems have dd: "\<not> r" "P = replicate (length P) ''..''"
      using cleaned_dotdot [of r P Q] by auto
    show ?thesis
    proof (cases P rule: rev_cases)
      case Nil
      with True dd next_step show ?thesis by simp
    next
      case (snoc P' x)
      with dd(2) have "x = ''..''"
        by (metis in_set_replicate last_in_set last_snoc snoc_eq_iff_butlast)
      with True snoc next_step show ?thesis by simp
    qed
  next
    case False
    with Cons.prems have "plain e" using cleaned_elem [of r "P @ e # Q" e] by simp
    then have "e \<noteq> [] \<and> e \<noteq> ''.'' \<and> e \<noteq> ''..''" by (simp add: plain_def)
    with next_step show ?thesis by simp
  qed
qed

lemma clean_elems_idem: "cleaned r S \<Longrightarrow> clean_elems r [] S = S"
  using clean_elems_idem_gen [of r "[]" S] by simp

lemma cleaned_snoc_plain: "cleaned r S \<Longrightarrow> plain e \<Longrightarrow> cleaned r (S @ [e])"
  unfolding cleaned_def
proof -
  assume "\<exists>n ps. S = replicate n ''..'' @ ps \<and> (\<forall>p\<in>set ps. plain p) \<and> (r \<longrightarrow> n = 0)"
    and e: "plain e"
  then obtain n ps where "S = replicate n ''..'' @ ps" "\<forall>p\<in>set ps. plain p" "r \<longrightarrow> n = 0"
    by blast
  then have "S @ [e] = replicate n ''..'' @ (ps @ [e]) \<and> (\<forall>p\<in>set (ps @ [e]). plain p)
               \<and> (r \<longrightarrow> n = 0)"
    using e by simp
  then show "\<exists>n ps. S @ [e] = replicate n ''..'' @ ps \<and> (\<forall>p\<in>set ps. plain p) \<and> (r \<longrightarrow> n = 0)"
    by blast
qed

lemma cleaned_no_sep:
  assumes "cleaned r S" and "e \<in> set S"
  shows "CHR ''/'' \<notin> set e \<and> e \<noteq> []"
proof (cases "e = ''..''")
  case True
  then show ?thesis by simp
next
  case False
  with assms have "plain e" by (rule cleaned_elem)
  then show ?thesis by (simp add: plain_def)
qed

lemma joinSep_hd:
  "xs \<noteq> [] \<Longrightarrow> hd xs \<noteq> [] \<Longrightarrow> joinSep xs \<noteq> [] \<and> hd (joinSep xs) = hd (hd xs)"
  by (induction xs rule: joinSep.induct) auto

text \<open>A cleaned, non-empty element list written as a path, and read back.\<close>

lemma path_of_cleaned:
  assumes "cleaned r T" and "T \<noteq> []"
  shows "root_prefix r @ joinSep T \<noteq> []"
    and "(hd (root_prefix r @ joinSep T) = CHR ''/'') = r"
    and "clean_elems r [] (splitSep (root_prefix r @ joinSep T)) = T"
proof -
  have elems: "\<forall>e\<in>set T. CHR ''/'' \<notin> set e" and "hd T \<noteq> []"
    using assms(1,2) cleaned_no_sep [of r T] by auto
  then have j: "joinSep T \<noteq> []" "hd (joinSep T) = hd (hd T)"
    using joinSep_hd [OF assms(2)] by auto
  have "hd (hd T) \<noteq> CHR ''/''"
    using elems assms(2) \<open>hd T \<noteq> []\<close> by (metis hd_in_set)
  with j show "root_prefix r @ joinSep T \<noteq> []"
    and "(hd (root_prefix r @ joinSep T) = CHR ''/'') = r"
    by (cases r; simp add: root_prefix_def)+
  show "clean_elems r [] (splitSep (root_prefix r @ joinSep T)) = T"
    using splitSep_joinSep [OF assms(2) elems] clean_elems_idem [OF assms(1)]
    by (cases r) (simp_all add: root_prefix_def)
qed

lemma Clean_append_sep:
  assumes "p \<noteq> []" and "hd p = CHR ''/'' \<longleftrightarrow> r"
    and "joinSep (clean_elems r (rev (clean_elems r [] (splitSep p))) (splitSep q)) \<noteq> []"
  shows "Clean (p @ CHR ''/'' # q) =
           root_prefix r @ joinSep (clean_elems r (rev (clean_elems r [] (splitSep p))) (splitSep q))"
  using assms
  by (cases r) (simp_all add: Clean_def splitSep_append_sep clean_elems_append Let_def
      root_prefix_def)

lemma hardlink_example_resolves:
  "Join [Dir (Join [dest, ''a/c/link'']), ''../b/target''] = Join [dest, ''a/b/target'']"
proof (cases "dest = []")
  case True
  then show ?thesis by (simp add: Dir_def Clean_def)
next
  case False
  define r where "r = (hd dest = CHR ''/'')"
  define S where "S = clean_elems r [] (splitSep dest)"
  have r: "hd dest = CHR ''/'' \<longleftrightarrow> r" by (simp add: r_def)
  have S: "cleaned r S"
    unfolding S_def
    using clean_elems_cleaned [of r "[]" "splitSep dest"] splitSep_elems_no_sep [of _ dest]
    by (simp add: cleaned_Nil)
  have pl: "plain ''a''" "plain ''c''" by (simp_all add: plain_def)
  have T: "cleaned r (S @ [''a'', ''c''])"
    using cleaned_snoc_plain [OF cleaned_snoc_plain [OF S pl(1)] pl(2)] by simp
  define D where "D = root_prefix r @ joinSep (S @ [''a'', ''c''])"
  have D: "D \<noteq> []" "(hd D = CHR ''/'') = r" "clean_elems r [] (splitSep D) = S @ [''a'', ''c'']"
    using path_of_cleaned [OF T] by (simp_all add: D_def)
  have snoc3: "joinSep (S @ [x, y, z]) = joinSep (S @ [x, y]) @ CHR ''/'' # z" for x y z
    using joinSep_snoc [of "S @ [x, y]" z] by simp
  have fpath: "Join [dest, ''a/c/link''] = D @ ''/link''"
    using False Clean_append_sep [OF False r, of "''a/c/link''"]
    by (simp add: S_def [symmetric] D_def snoc3)
  have dir: "Dir (D @ ''/link'') = D"
  proof -
    have "Dir (D @ ''/link'') = Clean (D @ CHR ''/'' # [])"
      by (simp add: Dir_def)
    also have "\<dots> = D"
      using Clean_append_sep [OF D(1) D(2), of "[]"] D(3) joinSep_snoc [of "S @ [''a'']" "''c''"]
      by (simp add: D_def)
    finally show ?thesis .
  qed
  have lhs: "Join [D, ''../b/target''] = root_prefix r @ joinSep (S @ [''a'', ''b'', ''target''])"
    using D(1) Clean_append_sep [OF D(1) D(2), of "''../b/target''"] D(3)
    by (simp add: snoc3)
  have rhs: "Join [dest, ''a/b/target''] = root_prefix r @ joinSep (S @ [''a'', ''b'', ''target''])"
    using False Clean_append_sep [OF False r, of "''a/b/target''"]
    by (simp add: S_def [symmetric] snoc3)
  show ?thesis
    unfolding fpath dir lhs rhs ..
qed

text \<open>
  Paths made of plain names: the relative path that \<open>filepath.Rel\<close> computes from the
  directory of one to another leads, from that directory below any destination, to the
  other below the same destination.
\<close>

lemma clean_elems_plain:
  "\<forall>p\<in>set ps. plain p \<Longrightarrow> clean_elems r out ps = rev out @ ps"
  by (induction ps arbitrary: out) (auto simp: plain_def)

lemma clean_elems_pop:
  "\<forall>p\<in>set ds. plain p \<Longrightarrow>
   clean_elems r (rev (S @ ds)) (replicate (length ds) ''..'' @ es) = clean_elems r (rev S) es"
proof (induction ds rule: rev_induct)
  case Nil
  then show ?case by simp
next
  case (snoc x xs)
  then have "x \<noteq> ''..''" by (simp add: plain_def)
  with snoc show ?case by simp
qed

lemma cleaned_append_plain:
  assumes "cleaned r S" and "\<forall>p\<in>set ps. plain p"
  shows "cleaned r (S @ ps)"
  using assms(2)
proof (induction ps rule: rev_induct)
  case Nil
  then show ?case using assms(1) by simp
next
  case (snoc x xs)
  then have "cleaned r ((S @ xs) @ [x])" by (intro cleaned_snoc_plain) simp_all
  then show ?case by simp
qed

lemma joinSep_Nil_iff: "\<forall>e\<in>set xs. e \<noteq> [] \<Longrightarrow> (joinSep xs = []) = (xs = [])"
  by (induction xs rule: joinSep.induct) auto

lemma cleaned_nonempty_elems: "cleaned r S \<Longrightarrow> \<forall>e\<in>set S. e \<noteq> []"
  using cleaned_no_sep by blast

lemma render_nonempty: "cleaned r S \<Longrightarrow> S \<noteq> [] \<Longrightarrow> render r S = root_prefix r @ joinSep S"
  using joinSep_Nil_iff [OF cleaned_nonempty_elems, of r S]
  by (simp add: render_def Let_def)

lemma render_Nil: "render r [] = (if r then ''/'' else ''.'')"
  by (simp add: render_def root_prefix_def)

text \<open>A cleaned element list written as a path, and read back.\<close>

lemma render_read_back:
  assumes "cleaned r S"
  shows "render r S \<noteq> []"
    and "(hd (render r S) = CHR ''/'') = r"
    and "clean_elems r [] (splitSep (render r S)) = S"
proof -
  show "render r S \<noteq> []" by (simp add: render_def Let_def)
  show "(hd (render r S) = CHR ''/'') = r"
  proof (cases "S = []")
    case True
    then show ?thesis by (simp add: render_Nil)
  next
    case False
    then show ?thesis
      using path_of_cleaned(2) [OF assms False] by (simp add: render_nonempty [OF assms False])
  qed
  show "clean_elems r [] (splitSep (render r S)) = S"
  proof (cases "S = []")
    case True
    then show ?thesis by (simp add: render_Nil)
  next
    case False
    then show ?thesis
      using path_of_cleaned(3) [OF assms False] by (simp add: render_nonempty [OF assms False])
  qed
qed

lemma Clean_render:
  assumes "p \<noteq> []"
  shows "Clean p = render (hd p = CHR ''/'') (clean_elems (hd p = CHR ''/'') [] (splitSep p))"
  using assms by (simp add: Clean_def render_def root_prefix_def Let_def)

lemma Clean_sep_render:
  assumes "p \<noteq> []"
  shows "Clean (p @ CHR ''/'' # q) =
           render (hd p = CHR ''/'')
             (clean_elems (hd p = CHR ''/'')
                (rev (clean_elems (hd p = CHR ''/'') [] (splitSep p))) (splitSep q))"
  using assms Clean_render [of "p @ CHR ''/'' # q"]
  by (simp add: splitSep_append_sep clean_elems_append)

lemma Join_render:
  assumes "cleaned r S"
  shows "Join [render r S, q] = render r (clean_elems r (rev S) (splitSep q))"
  using render_read_back [OF assms] Clean_sep_render [of "render r S" q]
  by simp

lemma Dir_render_snoc:
  assumes "cleaned r S" and "plain e"
  shows "Dir (render r (S @ [e])) = render r S"
proof -
  have Se: "cleaned r (S @ [e])" using assms by (rule cleaned_snoc_plain)
  have e: "CHR ''/'' \<notin> set e" using assms(2) by (simp add: plain_def)
  have dw: "dropWhile (\<lambda>c. c \<noteq> CHR ''/'') (rev e @ ys) = dropWhile (\<lambda>c. c \<noteq> CHR ''/'') ys" for ys
    using e by (auto simp: dropWhile_append)
  show ?thesis
  proof (cases "S = []")
    case True
    have "e \<noteq> []" using assms(2) by (simp add: plain_def)
    then have re: "render True [e] = CHR ''/'' # e" "render False [e] = e"
      by (simp_all add: render_def root_prefix_def)
    have d0: "dropWhile (\<lambda>c. c \<noteq> CHR ''/'') (rev e) = []"
      using e by (auto simp: dropWhile_eq_Nil_conv)
    have "Dir (render r (S @ [e])) = Clean (root_prefix r)"
      using True by (cases r) (simp_all add: Dir_def root_prefix_def re d0 dw)
    then show ?thesis using True by (cases r) (simp_all add: render_Nil root_prefix_def Clean_def)
  next
    case False
    have r1: "render r (S @ [e]) = (render r S) @ CHR ''/'' # e"
      using render_nonempty [OF Se] render_nonempty [OF assms(1) False] joinSep_snoc [OF False, of e]
      by simp
    have "Dir (render r (S @ [e])) = Clean (render r S @ CHR ''/'' # [])"
      unfolding r1 Dir_def using dw [of "CHR ''/'' # rev (render r S)"] by simp
    also have "\<dots> = render r S"
      using Clean_sep_render [of "render r S" "[]"] render_read_back [OF assms(1)]
      by simp
    finally show ?thesis .
  qed
qed

lemma cleaned_plain_list: "\<forall>p\<in>set ps. plain p \<Longrightarrow> cleaned r ps"
  using cleaned_append_plain [OF cleaned_Nil, of ps r] by simp

lemma Clean_of_render:
  assumes "cleaned r S"
  shows "Clean (render r S) = render r S"
  using render_read_back [OF assms] Clean_render [of "render r S"] by simp

lemma render_inj:
  assumes "cleaned r S" and "cleaned r T" and "render r S = render r T"
  shows "S = T"
proof -
  have "S = clean_elems r [] (splitSep (render r S))"
    by (simp only: render_read_back(3) [OF assms(1)])
  also have "\<dots> = clean_elems r [] (splitSep (render r T))"
    by (simp only: assms(3))
  also have "\<dots> = T"
    by (simp only: render_read_back(3) [OF assms(2)])
  finally show ?thesis .
qed

lemma render_plain:
  assumes "\<forall>p\<in>set ps. plain p" and "ps \<noteq> []"
  shows "render False ps = joinSep ps"
  using render_nonempty [OF cleaned_plain_list [OF assms(1)] assms(2)]
  by (simp add: root_prefix_def)

lemma rel_elems_render:
  assumes "\<forall>p\<in>set ps. plain p"
  shows "rel_elems (if render False ps = ''.'' then [] else render False ps) = ps"
    and "\<not> ((if render False ps = ''.'' then [] else render False ps) \<noteq> []
             \<and> hd (if render False ps = ''.'' then [] else render False ps) = CHR ''/'')"
proof -
  note c = cleaned_plain_list [OF assms, of False]
  note rb = render_read_back [OF c]
  have dot: "render False ps = ''.'' \<Longrightarrow> ps = []"
  proof -
    assume "render False ps = ''.''"
    with rb(3) show "ps = []" by simp
  qed
  show "rel_elems (if render False ps = ''.'' then [] else render False ps) = ps"
  proof (cases "render False ps = ''.''")
    case True
    with dot show ?thesis by (simp add: rel_elems_def)
  next
    case False
    then have "ps \<noteq> []" by (auto simp: render_Nil)
    have "render False ps \<noteq> ''/''" using rb(2) by auto
    moreover have "splitSep (render False ps) = ps"
      using splitSep_joinSep [OF \<open>ps \<noteq> []\<close>] cleaned_no_sep [OF c]
      by (simp add: render_plain [OF assms \<open>ps \<noteq> []\<close>])
    ultimately show ?thesis using False rb(1) by (simp add: rel_elems_def)
  qed
  show "\<not> ((if render False ps = ''.'' then [] else render False ps) \<noteq> []
             \<and> hd (if render False ps = ''.'' then [] else render False ps) = CHR ''/'')"
    using rb(2) by simp
qed

lemma rel_walk_plain:
  assumes "\<forall>p\<in>set ds. plain p" and "ds \<noteq> ls"
  shows "\<exists>c ds' ls'. ds = c @ ds' \<and> ls = c @ ls'
           \<and> replicate (length ds') ''..'' @ ls' \<noteq> []
           \<and> rel_walk ds ls = Some (joinSep (replicate (length ds') ''..'' @ ls'))"
  using assms
proof (induction ds ls rule: rel_walk.induct)
  case (1 ts)
  then show ?case by (intro exI [of _ "[]"] exI [of _ ts]) simp
next
  case (2 b bs)
  then have "b \<noteq> ''..''" by (simp add: plain_def)
  then show ?case by (intro exI [of _ "[]"] exI [of _ "b # bs"]) simp
next
  case (3 b bs t ts)
  then have b: "b \<noteq> ''..''" by (simp add: plain_def)
  show ?case
  proof (cases "b = t")
    case True
    with 3 obtain c ds' ls' where
      "bs = c @ ds'" "ts = c @ ls'" "replicate (length ds') ''..'' @ ls' \<noteq> []"
      "rel_walk bs ts = Some (joinSep (replicate (length ds') ''..'' @ ls'))"
      by auto
    with True show ?thesis
      by (intro exI [of _ "b # c"] exI [of _ ds'] exI [of _ ls']) simp
  next
    case False
    with b show ?thesis
      by (intro exI [of _ "[]"] exI [of _ "b # bs"] exI [of _ "t # ts"]) simp
  qed
qed

lemma Rel_plain_effect:
  assumes ds: "\<forall>p\<in>set ds. plain p" and ls: "\<forall>p\<in>set ls. plain p" and "ls \<noteq> []"
  shows "\<exists>target. Rel (render False ds) (joinSep ls) = (target, None)
           \<and> (\<forall>r S. clean_elems r (rev (S @ ds)) (splitSep target) = S @ ls)"
proof -
  note cd = cleaned_plain_list [OF ds, of False] and cl = cleaned_plain_list [OF ls, of False]
  have jl: "joinSep ls = render False ls" using render_plain [OF ls \<open>ls \<noteq> []\<close>] by simp
  have cb: "Clean (render False ds) = render False ds" by (rule Clean_of_render [OF cd])
  have ct: "Clean (joinSep ls) = render False ls" unfolding jl by (rule Clean_of_render [OF cl])
  show ?thesis
  proof (cases "ds = ls")
    case True
    have "Rel (render False ls) (joinSep ls) = (''.'', None)"
      by (simp add: Rel_def Clean_of_render [OF cl] ct)
    with True have "Rel (render False ds) (joinSep ls) = (''.'', None)"
      by simp
    moreover have "\<forall>r S. clean_elems r (rev (S @ ds)) (splitSep ''.'') = S @ ls"
      using True by simp
    ultimately show ?thesis by blast
  next
    case False
    then have ne: "render False ls \<noteq> render False ds"
      using render_inj [OF cl cd] by auto
    from rel_walk_plain [OF ds False] obtain c ds' ls' where
      split: "ds = c @ ds'" "ls = c @ ls'" and X: "replicate (length ds') ''..'' @ ls' \<noteq> []"
      and walk: "rel_walk ds ls = Some (joinSep (replicate (length ds') ''..'' @ ls'))"
      by blast
    let ?X = "replicate (length ds') ''..'' @ ls'"
    have rel: "Rel (render False ds) (joinSep ls) = (joinSep ?X, None)"
      using ne walk rel_elems_render [OF ds] rel_elems_render [OF ls]
      by (simp add: Rel_def cb ct Let_def)
    have "\<forall>e\<in>set ?X. CHR ''/'' \<notin> set e"
    proof
      fix e assume "e \<in> set ?X"
      then have "e = ''..'' \<or> e \<in> set ls" using split(2) by auto
      then show "CHR ''/'' \<notin> set e"
      proof
        assume "e = ''..''" then show ?thesis by simp
      next
        assume "e \<in> set ls"
        with ls have "plain e" by simp
        then show ?thesis by (simp add: plain_def)
      qed
    qed
    then have sp: "splitSep (joinSep ?X) = ?X" using splitSep_joinSep [OF X] by simp
    have ds': "\<forall>p\<in>set ds'. plain p" and ls': "\<forall>p\<in>set ls'. plain p"
      using ds ls split by auto
    have "clean_elems r (rev (S @ ds)) ?X = S @ ls" for r S
      using clean_elems_pop [OF ds', of r "S @ c" ls'] clean_elems_plain [OF ls', of r "rev (S @ c)"]
      by (simp add: split)
    with rel sp show ?thesis by simp
  qed
qed

lemma Join_dest_plain:
  "\<exists>r Sd. cleaned r Sd
     \<and> (\<forall>ps. ps \<noteq> [] \<and> (\<forall>p\<in>set ps. plain p) \<longrightarrow> Join [dest, joinSep ps] = render r (Sd @ ps))"
proof (cases "dest = []")
  case True
  have "Join [dest, joinSep ps] = render False ([] @ ps)" if "ps \<noteq> []" "\<forall>p\<in>set ps. plain p" for ps
  proof -
    have "joinSep ps \<noteq> []" using render_read_back(1) [OF cleaned_plain_list [OF that(2)], of False]
      by (simp add: render_plain [OF that(2,1)])
    then have "Join [dest, joinSep ps] = Clean (render False ps)"
      using True by (simp add: render_plain [OF that(2,1)])
    then show ?thesis using Clean_of_render [OF cleaned_plain_list [OF that(2)], of False] by simp
  qed
  then show ?thesis using cleaned_Nil [of False] by blast
next
  case False
  define r where "r = (hd dest = CHR ''/'')"
  define Sd where "Sd = clean_elems r [] (splitSep dest)"
  have Sd: "cleaned r Sd"
    unfolding Sd_def
    using clean_elems_cleaned [of r "[]" "splitSep dest"] splitSep_elems_no_sep [of _ dest]
    by (simp add: cleaned_Nil)
  have "Join [dest, joinSep ps] = render r (Sd @ ps)" if "ps \<noteq> []" "\<forall>p\<in>set ps. plain p" for ps
  proof -
    have sp: "splitSep (joinSep ps) = ps"
      using splitSep_joinSep [OF that(1)] that(2) by (simp add: plain_def)
    show ?thesis
      using False Clean_sep_render [OF False, of "joinSep ps"] clean_elems_plain [OF that(2), of r "rev Sd"]
      by (simp add: r_def [symmetric] Sd_def [symmetric] sp)
  qed
  with Sd show ?thesis by blast
qed

lemma hardlink_target_resolves:
  assumes ns: "\<forall>p\<in>set ns. plain p" and "ns \<noteq> []"
      and ls: "\<forall>p\<in>set ls. plain p" and "ls \<noteq> []"
  shows "\<exists>target. Rel (Dir (joinSep ns)) (joinSep ls) = (target, None)
           \<and> (\<forall>dest. Join [Dir (Join [dest, joinSep ns]), target] = Join [dest, joinSep ls])"
proof -
  obtain ds e where nse: "ns = ds @ [e]" using \<open>ns \<noteq> []\<close> by (cases ns rule: rev_cases) auto
  have ds: "\<forall>p\<in>set ds. plain p" and e: "plain e" using ns nse by auto
  have "joinSep ns = render False (ds @ [e])"
    using render_plain [OF ns \<open>ns \<noteq> []\<close>] nse by simp
  then have dir: "Dir (joinSep ns) = render False ds"
    using Dir_render_snoc [OF cleaned_plain_list [OF ds] e, of False] by simp
  from Rel_plain_effect [OF ds ls \<open>ls \<noteq> []\<close>] obtain target where
    rel: "Rel (render False ds) (joinSep ls) = (target, None)"
    and eff: "\<And>r S. clean_elems r (rev (S @ ds)) (splitSep target) = S @ ls"
    by blast
  have "Join [Dir (Join [dest, joinSep ns]), target] = Join [dest, joinSep ls]" for dest
  proof -
    from Join_dest_plain [of dest] obtain r Sd where
      Sd: "cleaned r Sd"
      and J: "\<And>ps. ps \<noteq> [] \<Longrightarrow> \<forall>p\<in>set ps. plain p \<Longrightarrow> Join [dest, joinSep ps] = render r (Sd @ ps)"
      by blast
    have c1: "cleaned r (Sd @ ds)" using cleaned_append_plain [OF Sd ds] .
    have "Join [dest, joinSep ns] = render r ((Sd @ ds) @ [e])"
      using J [OF \<open>ns \<noteq> []\<close> ns] by (simp add: nse)
    then have "Dir (Join [dest, joinSep ns]) = render r (Sd @ ds)"
      using Dir_render_snoc [OF c1 e] by simp
    then have "Join [Dir (Join [dest, joinSep ns]), target] = render r (Sd @ ls)"
      using Join_render [OF c1, of target] eff [of r Sd] by simp
    also have "\<dots> = Join [dest, joinSep ls]" using J [OF \<open>ls \<noteq> []\<close> ls] by simp
    finally show ?thesis .
  qed
  with rel dir show ?thesis by simp
qed

subsection \<open>Version\<close>

lemma Base_tar_gz:
  "Base (pre @ ''.tar.gz'') = rev (takeWhile (\<lambda>c. c \<noteq> CHR ''/'') (rev pre)) @ ''.tar.gz''"
  by (simp add: Base_def)

lemma Version_unfold:
  "Version hl =
     (if length (Base (Location hl)) < 7 then Inl SliceBoundsOutOfRange
      else Inr (take (length (Base (Location hl)) - 7) (Base (Location hl))))"
  by (simp add: Version_def Let_def eval_nat_numeral)

text \<open>
  C5. For a location that ends in \<open>.tar.gz\<close>, \<open>Version\<close> returns (without a panic) the
  base name of the location without its last seven bytes, and that version followed by
  \<open>.tar.gz\<close> is the base name again.
\<close>

theorem Version_strips_tar_gz:
  assumes "Location hl = pre @ ''.tar.gz''"
  shows "\<exists>v. Version hl = Inr v
           \<and> v = take (length (Base (Location hl)) - length ''.tar.gz'') (Base (Location hl))
           \<and> v @ ''.tar.gz'' = Base (Location hl)"
  using assms by (simp add: Version_def Base_tar_gz)

theorem Version_strips_tar_gz_witness:
  "Location demo_hl = ''http://artifacts.example/hoist/myapp_1.2.3'' @ ''.tar.gz''
   \<and> Version demo_hl = Inr ''myapp_1.2.3''
   \<and> ''myapp_1.2.3'' @ ''.tar.gz'' = Base (Location demo_hl)"
  using Version_strips_tar_gz [of demo_hl "''http://artifacts.example/hoist/myapp_1.2.3''"]
  by (simp add: demo_hl_def Base_def)

subsection \<open>The panic of Version\<close>

lemma Version_cases:
  "(length (Base (Location hl)) < 7 \<and> Version hl = Inl SliceBoundsOutOfRange)
   \<or> (7 \<le> length (Base (Location hl)) \<and> (\<exists>v. Version hl = Inr v))"
  by (simp add: Version_unfold)

lemma Version_Inl_iff:
  "(Version hl = Inl SliceBoundsOutOfRange) = (length (Base (Location hl)) < 7)"
  by (simp add: Version_unfold)

lemma InstallDir_Inl_iff:
  "(InstallDir hl = Inl SliceBoundsOutOfRange) = (length (Base (Location hl)) < 7)"
  by (simp add: InstallDir_def Version_unfold)

lemma Installed_Inl_iff:
  "(fst (Installed env hl t) = Inl SliceBoundsOutOfRange) = (length (Base (Location hl)) < 7)"
  by (simp add: Installed_def InstallDir_def Version_unfold split: sum.splits del: Join.simps)

lemma Installed_panic:
  "InstallDir hl = Inl p \<Longrightarrow> Installed env hl t = (Inl p, t)"
  by (simp add: Installed_def)

lemma Install_body_no_panic:
  "Version hl = Inr v \<Longrightarrow> Install_body env hl outDir tmp_err t = (x, t') \<Longrightarrow> \<exists>r. x = Inr r"
  by (auto simp add: Install_body_def InstallDir_def Let_def split: option.splits prod.splits
        simp del: Join.simps)

lemma Install_Inl_iff:
  "(fst (Install env hl t) = Inl SliceBoundsOutOfRange) = (length (Base (Location hl)) < 7)"
proof (cases "Version hl")
  case (Inl p)
  then have short: "length (Base (Location hl)) < 7"
    using Version_cases [of hl] by auto
  from Inl have "InstallDir hl = Inl p" by (simp add: InstallDir_def)
  then have "Install env hl t = (Inl p, t)"
    by (simp add: Install_def Installed_panic)
  with short show ?thesis by (cases p) simp
next
  case (Inr v)
  then have long: "\<not> length (Base (Location hl)) < 7"
    using Version_cases [of hl] by auto
  from Inr have dir: "InstallDir hl = Inr (Join [RootDir hl, ''installs'', v])"
    by (simp add: InstallDir_def)
  have "\<exists>r. fst (Install env hl t) = Inr r"
    by (auto simp: Install_def Installed_def dir Inr split: sum.splits prod.splits
          simp del: Join.simps dest: Install_body_no_panic [OF Inr])
  with long show ?thesis by auto
qed

lemma Executables_Inl_iff:
  "(fst (Executables env hl sb t) = Inl SliceBoundsOutOfRange)
     = (length (Base (Location hl)) < 7)"
proof (cases "Version hl")
  case (Inl p)
  then have short: "length (Base (Location hl)) < 7"
    using Version_cases [of hl] by auto
  from Inl have "InstallDir hl = Inl p" by (simp add: InstallDir_def)
  then have "Executables env hl sb t = (Inl p, t)"
    by (simp add: Executables_def Installed_panic)
  with short show ?thesis by (cases p) simp
next
  case (Inr v)
  then have long: "\<not> length (Base (Location hl)) < 7"
    using Version_cases [of hl] by auto
  from Inr have dir: "InstallDir hl = Inr (Join [RootDir hl, ''installs'', v])"
    by (simp add: InstallDir_def)
  have "\<exists>r. fst (Executables env hl sb t) = Inr r"
    by (auto simp: Executables_def Installed_def dir Let_def
          split: sum.splits prod.splits option.splits simp del: Join.simps)
  with long show ?thesis by auto
qed

text \<open>
  C10. \<open>Version\<close> panics with a slice bound out of range exactly when the base name of
  the location is shorter than the seven bytes of \<open>.tar.gz\<close>, and so do \<open>InstallDir\<close>,
  \<open>Installed\<close>, \<open>Install\<close> and \<open>Executables\<close>, on every host and after every trace: each of
  them returns only when the base name has at least seven bytes. The location \<open>x.gz\<close>
  is such an input.
\<close>

theorem Version_panics_iff_base_shorter_than_suffix:
  "(Version hl = Inl SliceBoundsOutOfRange) = (length (Base (Location hl)) < 7)
   \<and> (InstallDir hl = Inl SliceBoundsOutOfRange) = (length (Base (Location hl)) < 7)
   \<and> (fst (Installed env hl t) = Inl SliceBoundsOutOfRange) = (length (Base (Location hl)) < 7)
   \<and> (fst (Install env hl t) = Inl SliceBoundsOutOfRange) = (length (Base (Location hl)) < 7)
   \<and> (fst (Executables env hl sb t) = Inl SliceBoundsOutOfRange)
       = (length (Base (Location hl)) < 7)"
  using Version_Inl_iff InstallDir_Inl_iff Installed_Inl_iff Install_Inl_iff Executables_Inl_iff
  by blast

theorem Version_panics_on_x_gz:
  "Base (Location short_hl) = ''x.gz''
   \<and> Version short_hl = Inl SliceBoundsOutOfRange
   \<and> InstallDir short_hl = Inl SliceBoundsOutOfRange
   \<and> Installed env_ok short_hl [] = (Inl SliceBoundsOutOfRange, [])
   \<and> Install env_ok short_hl [] = (Inl SliceBoundsOutOfRange, [])
   \<and> Executables env_ok short_hl demo_sb [] = (Inl SliceBoundsOutOfRange, [])"
proof -
  have b: "Base (Location short_hl) = ''x.gz''"
    by (simp add: short_hl_def demo_hl_def Base_def)
  have "Version short_hl = Inl SliceBoundsOutOfRange
        \<and> InstallDir short_hl = Inl SliceBoundsOutOfRange
        \<and> fst (Installed env_ok short_hl []) = Inl SliceBoundsOutOfRange
        \<and> fst (Install env_ok short_hl []) = Inl SliceBoundsOutOfRange
        \<and> fst (Executables env_ok short_hl demo_sb []) = Inl SliceBoundsOutOfRange"
    using Version_panics_iff_base_shorter_than_suffix [of short_hl env_ok "[]" demo_sb]
    by (simp add: b)
  then show ?thesis
    by (simp add: b Installed_def Install_def Executables_def)
qed

subsection \<open>Install on an installed launchable\<close>

text \<open>
  C2. When the install directory exists (the stat of it succeeds), \<open>Install\<close> returns
  nil and the stat is the only call it makes: no temporary directory, no fetch, no
  extraction, and no call that touches any path. This holds after every trace, so a
  second \<open>Install\<close> that finds the directory of the first one only adds its stat.
\<close>

theorem Install_noop_when_installed:
  assumes "InstallDir hl = Inr installDir"
      and "os_Stat env t installDir = Inr info"
  shows "Install env hl t = (Inr None, t @ [OsStat installDir])
         \<and> (\<forall>q. filter (\<lambda>c. touches c q) (drop (length t) (snd (Install env hl t))) = [])
         \<and> (\<forall>t0. snd (Install env hl t0) = t \<longrightarrow>
               snd (Install env hl (snd (Install env hl t0))) = t @ [OsStat installDir])"
  using assms by (simp add: Install_def Installed_def)

theorem Install_noop_when_installed_witness:
  "InstallDir demo_hl = Inr ''/data/pods/myapp/installs/myapp_1.2.3''
   \<and> Install env_disk demo_hl [] = (Inr None, first_install_trace)
   \<and> os_Stat env_disk first_install_trace ''/data/pods/myapp/installs/myapp_1.2.3''
       = Inr \<lparr> fi_Name = ''myapp_1.2.3'', fi_IsDir = True \<rparr>
   \<and> Install env_disk demo_hl first_install_trace
       = (Inr None, first_install_trace @ [OsStat ''/data/pods/myapp/installs/myapp_1.2.3''])
   \<and> snd (Install env_disk demo_hl (snd (Install env_disk demo_hl [])))
       = first_install_trace @ [OsStat ''/data/pods/myapp/installs/myapp_1.2.3'']"
  using Install_noop_when_installed [OF InstallDir_demo_hl stat_after_first_install]
  by (simp add: InstallDir_demo_hl first_install_on_env_disk stat_after_first_install)

subsection \<open>Executable discovery\<close>

text \<open>
  C9. When the stat of the install directory fails, \<open>Executables\<close> returns no executable
  and the error \<open>"<id> is not installed"\<close>, and that stat is its only call. Whenever it
  makes any other call, or returns executables without an error, the stat of the install
  directory has succeeded.
\<close>

theorem Executables_requires_installed:
  assumes "InstallDir hl = Inr installDir"
  shows "(os_Stat env t installDir = Inl err \<longrightarrow>
            Executables env hl sb t =
              (Inr ([], Some (Errorf ''%s is not installed'' [ArgS (Id_hl hl)])),
               t @ [OsStat installDir]))
         \<and> (snd (Executables env hl sb t) \<noteq> t @ [OsStat installDir] \<longrightarrow>
              (\<exists>info. os_Stat env t installDir = Inr info))
         \<and> (fst (Executables env hl sb t) = Inr (exs, None) \<longrightarrow>
              (\<exists>info. os_Stat env t installDir = Inr info))"
  using assms
  by (cases "os_Stat env t installDir")
    (auto simp: Executables_def Installed_def Let_def split: sum.splits prod.splits option.splits
       simp del: Join.simps)

lemma Executables_env_ok:
  "Executables env_ok demo_hl demo_sb [] =
     (Inr (map (mkExecutable demo_hl demo_sb ''/data/pods/myapp/installs/myapp_1.2.3/bin/launch'')
             [\<lparr> fi_Name = ''web'', fi_IsDir = False \<rparr>, \<lparr> fi_Name = ''worker'', fi_IsDir = False \<rparr>],
           None),
      [OsStat ''/data/pods/myapp/installs/myapp_1.2.3'',
       OsStat ''/data/pods/myapp/installs/myapp_1.2.3/bin/launch'',
       IoutilReadDir ''/data/pods/myapp/installs/myapp_1.2.3/bin/launch''])"
  by (simp add: Executables_def Installed_def InstallDir_demo_hl env_ok_def Clean_def Base_def Let_def)

theorem Executables_requires_installed_witness:
  "InstallDir demo_hl = Inr ''/data/pods/myapp/installs/myapp_1.2.3''
   \<and> os_Stat env_fresh [] ''/data/pods/myapp/installs/myapp_1.2.3''
       = Inl (OSError NotExist ''no such file or directory'')
   \<and> Executables env_fresh demo_hl demo_sb [] =
       (Inr ([], Some (Errorf ''%s is not installed'' [ArgS ''myapp''])),
        [OsStat ''/data/pods/myapp/installs/myapp_1.2.3''])
   \<and> snd (Executables env_ok demo_hl demo_sb []) \<noteq> [OsStat ''/data/pods/myapp/installs/myapp_1.2.3'']
   \<and> (\<exists>exs. fst (Executables env_ok demo_hl demo_sb []) = Inr (exs, None))
   \<and> (\<exists>info. os_Stat env_ok [] ''/data/pods/myapp/installs/myapp_1.2.3'' = Inr info)"
proof -
  have fresh: "os_Stat env_fresh [] ''/data/pods/myapp/installs/myapp_1.2.3''
       = Inl (OSError NotExist ''no such file or directory'')"
    by (simp add: env_fresh_def)
  have idl: "Id_hl demo_hl = ''myapp''" by (simp add: demo_hl_def)
  show ?thesis
    using Executables_requires_installed [OF InstallDir_demo_hl, of env_fresh "[]"
        "OSError NotExist ''no such file or directory''" demo_sb]
      Executables_requires_installed [OF InstallDir_demo_hl, of env_ok "[]" _ demo_sb]
    by (simp add: fresh idl InstallDir_demo_hl Executables_env_ok)
qed

subsection \<open>Start\<close>

text \<open>
  What the loop of \<open>Start\<close> does with one restart: \<open>SuperviseOkMissing\<close> goes on to the
  next executable, every other answer (an error, or nil) is returned at once.
\<close>

lemma Start_loop_tolerates_missing:
  "call_err env t (SvRestart (ex_Service e)) = Some SuperviseOkMissing \<Longrightarrow>
   Start_loop env (e # rest) t = Start_loop env rest (t @ [SvRestart (ex_Service e)])"
  by (simp add: Let_def)

lemma Start_loop_returns_other:
  "call_err env t (SvRestart (ex_Service e)) = r \<Longrightarrow> r \<noteq> Some SuperviseOkMissing \<Longrightarrow>
   Start_loop env (e # rest) t = (r, t @ [SvRestart (ex_Service e)])"
  by (simp add: Let_def)

lemma Start_loop_trace:
  "Start_loop env exs t = (r, t') \<Longrightarrow>
   \<exists>n\<le>length exs. t' = t @ map (\<lambda>e. SvRestart (ex_Service e)) (take n exs)"
proof (induction exs arbitrary: t)
  case Nil
  then show ?case by simp
next
  case (Cons e exs)
  show ?case
  proof (cases "call_err env t (SvRestart (ex_Service e)) = Some SuperviseOkMissing")
    case True
    with Cons.prems have "Start_loop env exs (t @ [SvRestart (ex_Service e)]) = (r, t')"
      by (simp add: Let_def)
    from Cons.IH [OF this] obtain n where
      "n \<le> length exs" "t' = (t @ [SvRestart (ex_Service e)]) @ map (\<lambda>e. SvRestart (ex_Service e)) (take n exs)"
      by blast
    then have "Suc n \<le> length (e # exs) \<and> t' = t @ map (\<lambda>e. SvRestart (ex_Service e)) (take (Suc n) (e # exs))"
      by simp
    then show ?thesis by blast
  next
    case False
    with Cons.prems have "t' = t @ map (\<lambda>e. SvRestart (ex_Service e)) (take (Suc 0) (e # exs))"
      by (simp add: Let_def)
    then show ?thesis by (intro exI [of _ "Suc 0"]) simp
  qed
qed

text \<open>
  C1. The install directory of \<open>demo_hl\<close> holds the two executables \<open>web\<close> and \<open>worker\<close>,
  and the supervisor restarts every service without an error. \<open>Start\<close> returns success
  after the restart of \<open>web\<close>: a nil error is not \<open>SuperviseOkMissing\<close>, so the loop
  returns it, and \<open>worker\<close> never receives a restart request.
\<close>

theorem Start_returns_after_first_restart:
  "map (sv_Name \<circ> ex_Service) (fst (projr (fst (Executables env_ok demo_hl demo_sb []))))
     = [''myapp__web'', ''myapp__worker'']
   \<and> Start env_ok demo_hl demo_sb [] =
       (Inr None,
        [OsStat ''/data/pods/myapp/installs/myapp_1.2.3'',
         OsStat ''/data/pods/myapp/installs/myapp_1.2.3/bin/launch'',
         IoutilReadDir ''/data/pods/myapp/installs/myapp_1.2.3/bin/launch'',
         SvRestart \<lparr> sv_Path = ''/var/service/myapp__web'', sv_Name = ''myapp__web'' \<rparr>])"
  by (simp add: Start_def Executables_def Installed_def InstallDir_demo_hl env_ok_def Clean_def
        Base_def mkExecutable_def demo_sb_def Let_def)
    (simp add: demo_hl_def)

subsection \<open>Lifecycle hooks\<close>

lemma invokeBinScript_absent:
  "InstallDir hl = Inr d \<Longrightarrow> os_Stat env t (Join [d, ''bin'', script]) = Inl e \<Longrightarrow>
   invokeBinScript env hl script t = (Inr ([], Some e), t @ [OsStat (Join [d, ''bin'', script])])"
  by (simp add: invokeBinScript_def del: Join.simps)

lemma invokeBinScript_present:
  "InstallDir hl = Inr d \<Longrightarrow> os_Stat env t (Join [d, ''bin'', script]) = Inr info \<Longrightarrow>
   invokeBinScript env hl script t =
     (Inr (cmd_Run env (t @ [OsStat (Join [d, ''bin'', script])]) (Chpst hl)
             [''-u'', RunAs hl, ''-e'', ConfigDir hl, Join [d, ''bin'', script]]),
      t @ [OsStat (Join [d, ''bin'', script]),
           CmdRun (Chpst hl) [''-u'', RunAs hl, ''-e'', ConfigDir hl, Join [d, ''bin'', script]]])"
  by (simp add: invokeBinScript_def Let_def del: Join.simps)

text \<open>
  What the hooks do by the class of the error: a stat that fails with a not-exist error
  gives success with empty output, and a run that fails with an error that is not of the
  not-exist class gives the captured output and that error.
\<close>

lemma hooks_absent_script:
  assumes "InstallDir hl = Inr d"
      and "os_Stat env t (Join [d, ''bin'', ''enable'']) = Inl e" and "os_IsNotExist e"
  shows "Enable env hl t = (Inr ([], None), t @ [OsStat (Join [d, ''bin'', ''enable''])])"
  using assms by (simp add: Enable_def invokeBinScript_absent del: Join.simps)

lemma hooks_failed_script:
  assumes "InstallDir hl = Inr d"
      and "os_Stat env t (Join [d, ''bin'', ''enable'']) = Inr info"
      and "cmd_Run env (t @ [OsStat (Join [d, ''bin'', ''enable''])]) (Chpst hl)
             [''-u'', RunAs hl, ''-e'', ConfigDir hl, Join [d, ''bin'', ''enable'']] = (out, Some e)"
      and "\<not> os_IsNotExist e"
  shows "fst (Enable env hl t) = Inr (out, Some e)"
  using assms by (simp add: Enable_def invokeBinScript_present del: Join.simps)

text \<open>
  The three hooks pass on what \<open>invokeBinScript\<close> returns, but for an error of the
  not-exist class, which becomes nil.
\<close>

lemma hooks_swallow_not_exist_class:
  assumes "invokeBinScript env hl script t = (Inr (out, err), t')"
      and "(hook = Enable \<and> script = ''enable'') \<or> (hook = Disable \<and> script = ''disable'')
           \<or> (hook = PostActivate \<and> script = ''post-activate'')"
  shows "hook env hl t =
           (Inr (out, case err of None \<Rightarrow> None
                       | Some e \<Rightarrow> if os_IsNotExist e then None else Some e), t')"
  using assms
  by (auto simp: Enable_def Disable_def PostActivate_def split: option.splits)

text \<open>
  C3. On a host where the hook scripts exist and the chpst binary is missing, the run of
  the script fails in fork/exec with a not-exist error. \<open>Enable\<close>, \<open>Disable\<close> and
  \<open>PostActivate\<close> test \<open>os.IsNotExist\<close> on whatever \<open>invokeBinScript\<close> returns, so they
  swallow this failure of an existing script too and return success.
\<close>

theorem hooks_swallow_failed_run:
  "Enable env_chpst_missing demo_hl [] =
     (Inr ([], None),
      [OsStat ''/data/pods/myapp/installs/myapp_1.2.3/bin/enable'',
       CmdRun ''/usr/bin/chpst''
         [''-u'', ''appuser'', ''-e'', ''/data/pods/myapp/env'',
          ''/data/pods/myapp/installs/myapp_1.2.3/bin/enable'']])
   \<and> fst (Disable env_chpst_missing demo_hl []) = Inr ([], None)
   \<and> fst (PostActivate env_chpst_missing demo_hl []) = Inr ([], None)
   \<and> cmd_Run env_chpst_missing
         [OsStat ''/data/pods/myapp/installs/myapp_1.2.3/bin/enable''] ''/usr/bin/chpst''
         [''-u'', ''appuser'', ''-e'', ''/data/pods/myapp/env'',
          ''/data/pods/myapp/installs/myapp_1.2.3/bin/enable'']
       = ([], Some (OSError NotExist ''fork/exec /usr/bin/chpst: no such file or directory''))"
  by (simp add: Enable_def Disable_def PostActivate_def invokeBinScript_def InstallDir_demo_hl
        env_chpst_missing_def env_ok_def Clean_def Let_def)
    (simp add: demo_hl_def)

subsection \<open>Launch\<close>

lemma Executables_trace:
  "Executables env hl sb t = (r, t') \<Longrightarrow>
   \<exists>ev. t' = t @ ev \<and> (\<forall>c\<in>set ev. (\<exists>p. c = OsStat p) \<or> (\<exists>p. c = IoutilReadDir p))"
  by (auto simp: Executables_def Installed_def Let_def
        split: sum.splits prod.splits option.splits bool.splits if_splits simp del: Join.simps)

lemma Start_trace:
  assumes "Start env hl sb t = (r, t')"
  shows "\<exists>ev. t' = t @ ev \<and> (\<forall>c a. CmdRun c a \<notin> set ev)"
proof (cases "Executables env hl sb t")
  case (Pair x t1)
  from Executables_trace [OF Pair] obtain ev1 where
    ev1: "t1 = t @ ev1" "\<forall>c\<in>set ev1. (\<exists>p. c = OsStat p) \<or> (\<exists>p. c = IoutilReadDir p)"
    by blast
  then have no1: "\<forall>c a. CmdRun c a \<notin> set ev1" by auto
  show ?thesis
  proof (cases x)
    case (Inl p)
    with assms Pair have "t' = t1" by (simp add: Start_def)
    with ev1 no1 show ?thesis by blast
  next
    case (Inr y)
    obtain exs err where y: "y = (exs, err)" by (cases y)
    show ?thesis
    proof (cases err)
      case (Some e)
      with assms Pair Inr y have "t' = t1" by (simp add: Start_def)
      with ev1 no1 show ?thesis by blast
    next
      case None
      with assms Pair Inr y obtain r2 where "Start_loop env exs t1 = (r2, t')"
        by (auto simp: Start_def split: prod.splits)
      from Start_loop_trace [OF this] obtain n where
        "t' = t1 @ map (\<lambda>e. SvRestart (ex_Service e)) (take n exs)" by blast
      with ev1 have "t' = t @ (ev1 @ map (\<lambda>e. SvRestart (ex_Service e)) (take n exs))" by simp
      moreover have "\<forall>c a. CmdRun c a \<notin> set (ev1 @ map (\<lambda>e. SvRestart (ex_Service e)) (take n exs))"
        using no1 by auto
      ultimately show ?thesis by blast
    qed
  qed
qed

text \<open>
  C4. When writing the cgroup configuration fails, \<open>Launch\<close> returns the wrapped error
  \<open>"Could not configure cgroup ..."\<close> and the write is its only call. In every run the
  write comes first; a supervisor restart among the later calls means the write
  succeeded, and a run of a hook script among them means the write succeeded and \<open>Start\<close>
  returned nil. When \<open>Start\<close> returns an error, \<open>Launch\<close> returns it wrapped and makes no
  call after those of \<open>Start\<close>.
\<close>

theorem Launch_short_circuits:
  "(call_err env t (CgroupsWrite (CgroupConfig hl)) = Some err \<longrightarrow>
      Launch env hl sb t =
        (Inr (Some (Errorf ''Could not configure cgroup %s: %s''
                      [ArgS (cg_Name (CgroupConfig hl)), ArgE err])),
         t @ [CgroupsWrite (CgroupConfig hl)]))
   \<and> (\<exists>rest. snd (Launch env hl sb t) = t @ CgroupsWrite (CgroupConfig hl) # rest
        \<and> ((\<exists>s. SvRestart s \<in> set rest) \<longrightarrow>
              call_err env t (CgroupsWrite (CgroupConfig hl)) = None)
        \<and> ((\<exists>c args. CmdRun c args \<in> set rest) \<longrightarrow>
              call_err env t (CgroupsWrite (CgroupConfig hl)) = None
              \<and> fst (Start env hl sb (t @ [CgroupsWrite (CgroupConfig hl)])) = Inr None))
   \<and> (call_err env t (CgroupsWrite (CgroupConfig hl)) = None
        \<and> Start env hl sb (t @ [CgroupsWrite (CgroupConfig hl)]) = (Inr (Some err), t2) \<longrightarrow>
      Launch env hl sb t =
        (Inr (Some (Errorf ''Could not launch %s: %s'' [ArgS (Id_hl hl), ArgE err])), t2))"
proof (intro conjI)
  show "call_err env t (CgroupsWrite (CgroupConfig hl)) = Some err \<longrightarrow>
      Launch env hl sb t =
        (Inr (Some (Errorf ''Could not configure cgroup %s: %s''
                      [ArgS (cg_Name (CgroupConfig hl)), ArgE err])),
         t @ [CgroupsWrite (CgroupConfig hl)])"
    by (simp add: Launch_def)
next
  show "call_err env t (CgroupsWrite (CgroupConfig hl)) = None
        \<and> Start env hl sb (t @ [CgroupsWrite (CgroupConfig hl)]) = (Inr (Some err), t2) \<longrightarrow>
      Launch env hl sb t =
        (Inr (Some (Errorf ''Could not launch %s: %s'' [ArgS (Id_hl hl), ArgE err])), t2)"
    by (simp add: Launch_def)
next
  let ?cg = "CgroupsWrite (CgroupConfig hl)"
  show "\<exists>rest. snd (Launch env hl sb t) = t @ ?cg # rest
        \<and> ((\<exists>s. SvRestart s \<in> set rest) \<longrightarrow> call_err env t ?cg = None)
        \<and> ((\<exists>c args. CmdRun c args \<in> set rest) \<longrightarrow>
              call_err env t ?cg = None \<and> fst (Start env hl sb (t @ [?cg])) = Inr None)"
  proof (cases "call_err env t ?cg")
    case (Some e)
    then have "snd (Launch env hl sb t) = t @ ?cg # []" by (simp add: Launch_def)
    then show ?thesis by (intro exI [of _ "[]"]) simp
  next
    case None
    obtain r1 t1 where st: "Start env hl sb (t @ [?cg]) = (r1, t1)"
      by (cases "Start env hl sb (t @ [?cg])")
    from Start_trace [OF st] obtain ev where
      ev: "t1 = (t @ [?cg]) @ ev" "\<forall>c a. CmdRun c a \<notin> set ev" by blast
    show ?thesis
    proof (cases "r1 = Inr None")
      case True
      obtain r2 t3 where en: "Enable env hl t1 = (r2, t3)" by (cases "Enable env hl t1")
      have "\<exists>ev2. t3 = t1 @ ev2"
        using en by (auto simp: Enable_def invokeBinScript_def Let_def
            split: sum.splits prod.splits option.splits if_splits simp del: Join.simps)
      then obtain ev2 where "t3 = t1 @ ev2" by blast
      moreover have "snd (Launch env hl sb t) = t3"
        using None st True en by (auto simp: Launch_def split: sum.splits prod.splits)
      ultimately have "snd (Launch env hl sb t) = t @ ?cg # (ev @ ev2)"
        using ev by simp
      with None st True show ?thesis by (intro exI [of _ "ev @ ev2"]) simp
    next
      case False
      have "snd (Launch env hl sb t) = t1"
        using None st False
        by (auto simp: Launch_def split: sum.splits prod.splits option.splits)
      then have "snd (Launch env hl sb t) = t @ ?cg # ev" using ev by simp
      with None ev show ?thesis by (intro exI [of _ ev]) auto
    qed
  qed
qed

theorem Launch_short_circuits_witness:
  "call_err env_cgroup_fails [] (CgroupsWrite (CgroupConfig demo_hl))
       = Some (OSError OtherKind ''permission denied'')
   \<and> Launch env_cgroup_fails demo_hl demo_sb [] =
       (Inr (Some (Errorf ''Could not configure cgroup %s: %s''
                     [ArgS ''myapp'', ArgE (OSError OtherKind ''permission denied'')])),
        [CgroupsWrite (CgroupConfig demo_hl)])
   \<and> call_err env_fresh [] (CgroupsWrite (CgroupConfig demo_hl)) = None
   \<and> Start env_fresh demo_hl demo_sb [CgroupsWrite (CgroupConfig demo_hl)] =
       (Inr (Some (Errorf ''%s is not installed'' [ArgS ''myapp''])),
        [CgroupsWrite (CgroupConfig demo_hl), OsStat ''/data/pods/myapp/installs/myapp_1.2.3''])
   \<and> Launch env_fresh demo_hl demo_sb [] =
       (Inr (Some (Errorf ''Could not launch %s: %s''
                     [ArgS ''myapp'', ArgE (Errorf ''%s is not installed'' [ArgS ''myapp''])])),
        [CgroupsWrite (CgroupConfig demo_hl), OsStat ''/data/pods/myapp/installs/myapp_1.2.3''])
   \<and> SvRestart \<lparr> sv_Path = ''/var/service/myapp__web'', sv_Name = ''myapp__web'' \<rparr>
       \<in> set (snd (Launch env_ok demo_hl demo_sb []))
   \<and> CmdRun ''/usr/bin/chpst''
        [''-u'', ''appuser'', ''-e'', ''/data/pods/myapp/env'',
         ''/data/pods/myapp/installs/myapp_1.2.3/bin/enable'']
       \<in> set (snd (Launch env_ok demo_hl demo_sb []))
   \<and> call_err env_ok [] (CgroupsWrite (CgroupConfig demo_hl)) = None
   \<and> fst (Start env_ok demo_hl demo_sb [CgroupsWrite (CgroupConfig demo_hl)]) = Inr None"
proof -
  have names: "Id_hl demo_hl = ''myapp''" "cg_Name (CgroupConfig demo_hl) = ''myapp''"
    by (simp_all add: demo_hl_def)
  have fails: "call_err env_cgroup_fails [] (CgroupsWrite (CgroupConfig demo_hl))
       = Some (OSError OtherKind ''permission denied'')"
    by (simp add: env_cgroup_fails_def)
  have fresh: "call_err env_fresh [] (CgroupsWrite (CgroupConfig demo_hl)) = None"
    by (simp add: env_fresh_def env_ok_def)
  have start_fresh: "Start env_fresh demo_hl demo_sb [CgroupsWrite (CgroupConfig demo_hl)] =
       (Inr (Some (Errorf ''%s is not installed'' [ArgS ''myapp''])),
        [CgroupsWrite (CgroupConfig demo_hl), OsStat ''/data/pods/myapp/installs/myapp_1.2.3''])"
    by (simp add: Start_def Executables_def Installed_def InstallDir_demo_hl env_fresh_def names)
  have ok: "call_err env_ok [] (CgroupsWrite (CgroupConfig demo_hl)) = None"
    by (simp add: env_ok_def)
  have launch_ok: "snd (Launch env_ok demo_hl demo_sb []) =
     [CgroupsWrite (CgroupConfig demo_hl),
      OsStat ''/data/pods/myapp/installs/myapp_1.2.3'',
      OsStat ''/data/pods/myapp/installs/myapp_1.2.3/bin/launch'',
      IoutilReadDir ''/data/pods/myapp/installs/myapp_1.2.3/bin/launch'',
      SvRestart \<lparr> sv_Path = ''/var/service/myapp__web'', sv_Name = ''myapp__web'' \<rparr>,
      OsStat ''/data/pods/myapp/installs/myapp_1.2.3/bin/enable'',
      CmdRun ''/usr/bin/chpst''
        [''-u'', ''appuser'', ''-e'', ''/data/pods/myapp/env'',
         ''/data/pods/myapp/installs/myapp_1.2.3/bin/enable'']]"
    by (simp add: Launch_def Start_def Enable_def invokeBinScript_def Executables_def
          Installed_def InstallDir_demo_hl env_ok_def Clean_def Base_def mkExecutable_def
          demo_sb_def Let_def)
      (simp add: demo_hl_def)
  show ?thesis
    using Launch_short_circuits [of env_cgroup_fails "[]" demo_hl
        "OSError OtherKind ''permission denied''" demo_sb]
      Launch_short_circuits [of env_fresh "[]" demo_hl
        "Errorf ''%s is not installed'' [ArgS ''myapp'']" demo_sb
        "[CgroupsWrite (CgroupConfig demo_hl), OsStat ''/data/pods/myapp/installs/myapp_1.2.3'']"]
      Launch_short_circuits [of env_ok "[]" demo_hl _ demo_sb]
    by (simp add: names fails fresh start_fresh ok launch_ok)
qed

subsection \<open>Extraction\<close>

lemma extract_entry_extends:
  "extract_entry env hl fp dest uid gid hdr d t = (r, d', t') \<Longrightarrow> \<exists>ev. t' = t @ ev"
  by (auto simp: extract_entry_def Let_def split: option.splits prod.splits if_splits
        simp del: Join.simps)

lemma extract_entries_extends:
  "extract_entries env hl fp dest uid gid hdrs tail_err d t = (r, d', t') \<Longrightarrow> \<exists>ev. t' = t @ ev"
proof (induction hdrs arbitrary: d t)
  case Nil
  then show ?case by (auto split: option.splits)
next
  case (Cons h hs)
  obtain r1 d1 t1 where e: "extract_entry env hl fp dest uid gid h d t = (r1, d1, t1)"
    by (cases "extract_entry env hl fp dest uid gid h d t")
  from extract_entry_extends [OF e] obtain ev1 where t1: "t1 = t @ ev1" by blast
  show ?case
  proof (cases r1)
    case (Some err)
    with Cons.prems e t1 show ?thesis by auto
  next
    case None
    with Cons.prems e have "extract_entries env hl fp dest uid gid hs tail_err d1 t1 = (r, d', t')"
      by simp
    from Cons.IH [OF this] t1 show ?thesis by auto
  qed
qed

lemma extract_entry_unsupported:
  assumes "hdr_Typeflag hdr \<notin> {TypeReg, TypeRegA, TypeLink, TypeSymlink, TypeDir}"
  shows "extract_entry env hl fp dest uid gid hdr d t =
           (Some (Errorf ''Unhandled type flag %q (header %v) when unpacking %s''
                    [ArgB (hdr_Typeflag hdr), ArgH hdr, ArgS fp]), d, t)"
  using assms by (simp add: extract_entry_def Let_def del: Join.simps)

lemma extract_entries_never_skip:
  assumes "hdr \<in> set hdrs"
      and "hdr_Typeflag hdr \<notin> {TypeReg, TypeRegA, TypeLink, TypeSymlink, TypeDir}"
  shows "\<exists>e. fst (extract_entries env hl fp dest uid gid hdrs tail_err d t) = Some e"
  using assms(1)
proof (induction hdrs arbitrary: d t)
  case Nil
  then show ?case by simp
next
  case (Cons h hs)
  obtain r1 d1 t1 where e: "extract_entry env hl fp dest uid gid h d t = (r1, d1, t1)"
    by (cases "extract_entry env hl fp dest uid gid h d t")
  show ?case
  proof (cases r1)
    case (Some err)
    with e show ?thesis by simp
  next
    case None
    have "h \<noteq> hdr"
    proof
      assume "h = hdr"
      with e None extract_entry_unsupported [OF assms(2), of env hl fp dest uid gid d t]
      show False by simp
    qed
    with Cons.prems have "hdr \<in> set hs" by simp
    from Cons.IH [OF this, of d1 t1] e None show ?thesis by simp
  qed
qed

lemma extractTarGz_never_skip:
  assumes "hdr \<in> set (fst (fst (gzip_NewReader env t fp)))"
      and "hdr_Typeflag hdr \<notin> {TypeReg, TypeRegA, TypeLink, TypeSymlink, TypeDir}"
  shows "\<exists>e. fst (extractTarGz env hl fp dest t) = Some e"
proof -
  obtain stream gerr where g: "gzip_NewReader env t fp = (stream, gerr)"
    by (cases "gzip_NewReader env t fp")
  with assms(1) have mem: "hdr \<in> set (fst stream)" by simp
  have body: "\<And>t1. \<exists>e. fst (extractTarGz_body env hl fp dest stream t1) = Some e"
  proof -
    fix t1
    show "\<exists>e. fst (extractTarGz_body env hl fp dest stream t1) = Some e"
      using extract_entries_never_skip [OF mem assms(2), of env hl fp dest]
      by (auto simp: extractTarGz_body_def Let_def split: option.splits prod.splits)
        (metis fst_conv option.distinct(1))
  qed
  show ?thesis
    using body [of "t @ [GzipNewReader fp]"]
    by (auto simp: extractTarGz_def g Let_def split: option.splits prod.splits)
qed

lemma Install_never_skip:
  assumes dir: "InstallDir hl = Inr installDir"
      and fresh: "os_Stat env t installDir = Inl e0"
      and every: "\<And>t1 fp. hdr \<in> set (fst (fst (gzip_NewReader env t1 fp)))"
      and bad: "hdr_Typeflag hdr \<notin> {TypeReg, TypeRegA, TypeLink, TypeSymlink, TypeDir}"
  shows "\<exists>e. fst (Install env hl t) = Inr (Some e)"
proof -
  from dir obtain v where v: "Version hl = Inr v"
    by (auto simp: InstallDir_def split: sum.splits)
  have body: "\<And>outDir tmp_err t1. \<exists>e. fst (Install_body env hl outDir tmp_err t1) = Inr (Some e)"
  proof -
    fix outDir tmp_err t1
    have "\<And>fp t2. \<exists>e. fst (extractTarGz env hl fp installDir t2) = Some e"
      using extractTarGz_never_skip [OF every bad] by blast
    then show "\<exists>e. fst (Install_body env hl outDir tmp_err t1) = Inr (Some e)"
      by (auto simp: Install_body_def v dir Let_def split: option.splits prod.splits
            simp del: Join.simps)
        (metis fst_conv option.distinct(1))
  qed
  show ?thesis
    using body
    by (auto simp: Install_def Installed_def dir fresh v split: prod.splits)
      (metis fst_conv)
qed

text \<open>
  C7. A header whose type flag is none of regular file (\<open>TypeReg\<close>, \<open>TypeRegA\<close>), hard
  link, symlink and directory makes the loop return the error \<open>"Unhandled type flag ..."\<close>
  at that header, with no call for it and none for the headers after it. An archive that
  holds such a header never extracts with success, and an \<open>Install\<close> that is not stopped
  by an existing install directory returns an error when every archive it can open
  holds such a header.
\<close>

theorem unsupported_entry_aborts_install:
  assumes "hdr_Typeflag hdr \<notin> {TypeReg, TypeRegA, TypeLink, TypeSymlink, TypeDir}"
  shows "extract_entries env hl fp dest uid gid (hdr # rest) tail_err d t =
           (Some (Errorf ''Unhandled type flag %q (header %v) when unpacking %s''
                    [ArgB (hdr_Typeflag hdr), ArgH hdr, ArgS fp]), d, t)
         \<and> (hdr \<in> set hdrs \<longrightarrow>
              (\<exists>e. fst (extract_entries env hl fp dest uid gid hdrs tail_err d t) = Some e))
         \<and> (hdr \<in> set (fst (fst (gzip_NewReader env t fp))) \<longrightarrow>
              (\<exists>e. fst (extractTarGz env hl fp dest t) = Some e))
         \<and> (InstallDir hl = Inr installDir \<and> os_Stat env t installDir = Inl e0
              \<and> (\<forall>t1 fp1. hdr \<in> set (fst (fst (gzip_NewReader env t1 fp1)))) \<longrightarrow>
              (\<exists>e. fst (Install env hl t) = Inr (Some e)))"
  using extract_entry_unsupported [OF assms, of env hl fp dest uid gid d t]
    extract_entries_never_skip [OF _ assms, of hdrs env hl fp dest uid gid tail_err d t]
    extractTarGz_never_skip [OF _ assms, of env t fp hl dest]
    Install_never_skip [OF _ _ _ assms, of hl installDir env t e0]
  by simp

lemma device_and_fifo_flags_unsupported:
  "TypeChar \<notin> {TypeReg, TypeRegA, TypeLink, TypeSymlink, TypeDir}
   \<and> TypeBlock \<notin> {TypeReg, TypeRegA, TypeLink, TypeSymlink, TypeDir}
   \<and> TypeFifo \<notin> {TypeReg, TypeRegA, TypeLink, TypeSymlink, TypeDir}"
  by (simp add: TypeChar_def TypeBlock_def TypeFifo_def TypeReg_def TypeRegA_def TypeLink_def
        TypeSymlink_def TypeDir_def)

lemma fifo_unsupported:
  "hdr_Typeflag fifo_hdr \<notin> {TypeReg, TypeRegA, TypeLink, TypeSymlink, TypeDir}"
  by (simp add: fifo_hdr_def TypeFifo_def TypeReg_def TypeRegA_def TypeLink_def TypeSymlink_def
        TypeDir_def)

lemma Install_env_fifo:
  "Install env_fifo demo_hl [] =
     (Inr (Some (Errorf ''Unhandled type flag %q (header %v) when unpacking %s''
                   [ArgB TypeFifo, ArgH fifo_hdr, ArgS ''/tmp/myapp_1.2.3123456/myapp_1.2.3''])),
      [OsStat ''/data/pods/myapp/installs/myapp_1.2.3'',
       IoutilTempDir [] ''myapp_1.2.3'',
       FetchToFile ''http://artifacts.example/hoist/myapp_1.2.3.tar.gz''
         ''/tmp/myapp_1.2.3123456/myapp_1.2.3'',
       OsOpen ''/tmp/myapp_1.2.3123456/myapp_1.2.3'',
       GzipNewReader ''/tmp/myapp_1.2.3123456/myapp_1.2.3'',
       UserIDs ''appuser'',
       MkdirChownAll ''/data/pods/myapp/installs/myapp_1.2.3'' 1000 1000 493,
       OsChown ''/data/pods/myapp/installs/myapp_1.2.3'' 1000 1000,
       OsOpenFile ''/data/pods/myapp/installs/myapp_1.2.3/a/first''
         [O_WRONLY, O_CREATE, O_TRUNC] 420,
       FileChown ''/data/pods/myapp/installs/myapp_1.2.3/a/first'' 1000 1000,
       IoCopy ''/data/pods/myapp/installs/myapp_1.2.3/a/first'',
       FileClose ''/data/pods/myapp/installs/myapp_1.2.3/a/first'',
       FileClose ''/data/pods/myapp/installs/myapp_1.2.3/a/first'',
       GzipClose ''/tmp/myapp_1.2.3123456/myapp_1.2.3'',
       FileClose ''/tmp/myapp_1.2.3123456/myapp_1.2.3'',
       OsRemoveAll ''/tmp/myapp_1.2.3123456''])"
  by (simp add: Install_def Installed_def InstallDir_demo_hl Install_body_def extractTarGz_def
      extractTarGz_body_def extract_entry_def env_fifo_def env_fresh_def env_ok_def
      fifo_archive_def fifo_hdr_def Let_def Clean_def
      TypeReg_def TypeRegA_def TypeLink_def TypeSymlink_def TypeDir_def TypeFifo_def
      Version_def Base_def)
    (simp add: demo_hl_def fifo_hdr_def TypeFifo_def)

theorem unsupported_entry_aborts_install_witness:
  "hdr_Typeflag fifo_hdr \<notin> {TypeReg, TypeRegA, TypeLink, TypeSymlink, TypeDir}
   \<and> (\<forall>t fp. fifo_hdr \<in> set (fst (fst (gzip_NewReader env_fifo t fp))))
   \<and> InstallDir demo_hl = Inr ''/data/pods/myapp/installs/myapp_1.2.3''
   \<and> os_Stat env_fifo [] ''/data/pods/myapp/installs/myapp_1.2.3''
       = Inl (OSError NotExist ''no such file or directory'')
   \<and> (\<exists>e. fst (Install env_fifo demo_hl []) = Inr (Some e))
   \<and> fst (Install env_fifo demo_hl []) =
       Inr (Some (Errorf ''Unhandled type flag %q (header %v) when unpacking %s''
                    [ArgB TypeFifo, ArgH fifo_hdr, ArgS ''/tmp/myapp_1.2.3123456/myapp_1.2.3'']))
   \<and> (\<forall>q. OsOpenFile ''/data/pods/myapp/installs/myapp_1.2.3/a/second'' q 420
            \<notin> set (snd (Install env_fifo demo_hl [])))"
proof -
  have every: "\<forall>t fp. fifo_hdr \<in> set (fst (fst (gzip_NewReader env_fifo t fp)))"
    by (simp add: env_fifo_def fifo_archive_def)
  have fresh: "os_Stat env_fifo [] ''/data/pods/myapp/installs/myapp_1.2.3''
       = Inl (OSError NotExist ''no such file or directory'')"
    by (simp add: env_fifo_def env_fresh_def)
  have aborted: "\<exists>e. fst (Install env_fifo demo_hl []) = Inr (Some e)"
    using unsupported_entry_aborts_install [OF fifo_unsupported, of env_fifo demo_hl _ _ _ _ _ _
        _ "[]" _ "''/data/pods/myapp/installs/myapp_1.2.3''"
        "OSError NotExist ''no such file or directory''"]
      every fresh InstallDir_demo_hl
    by simp
  show ?thesis
    using aborted fifo_unsupported every
    by (simp add: fresh InstallDir_demo_hl Install_env_fifo)
qed

lemma Rel_example: "Rel (Dir ''a/c/link'') ''a/b/target'' = (''../b/target'', None)"
  by (simp add: Rel_def Dir_def Clean_def rel_elems_def Let_def)

lemma hardlink_entry:
  assumes "hdr_Typeflag hdr = TypeLink"
      and "Rel (Dir (hdr_Name hdr)) (hdr_Linkname hdr) = (linkTarget, None)"
  shows "extract_entry env hl fp dest uid gid hdr d t =
           (case call_err env t (OsSymlink linkTarget (Join [dest, hdr_Name hdr])) of
              None \<Rightarrow> (None, d, t @ [OsSymlink linkTarget (Join [dest, hdr_Name hdr])])
            | Some err \<Rightarrow>
                (Some (Errorf ''Unable to create destination symlink %s (resolved %s to %s) when unpacking %s: %s''
                         [ArgS (Join [dest, hdr_Name hdr]), ArgS linkTarget,
                          ArgS (hdr_Linkname hdr), ArgS fp, ArgE err]),
                 d, t @ [OsSymlink linkTarget (Join [dest, hdr_Name hdr])]))"
  using assms
  by (simp add: extract_entry_def Let_def TypeLink_def TypeSymlink_def
        split: option.splits del: Join.simps)

lemma hardlink_entries:
  assumes "hdr_Typeflag hdr = TypeLink"
      and "Rel (Dir (hdr_Name hdr)) (hdr_Linkname hdr) = (linkTarget, None)"
  shows "\<exists>r d' ev. extract_entries env hl fp dest uid gid (hdr # rest) tail_err d t =
           (r, d', t @ OsSymlink linkTarget (Join [dest, hdr_Name hdr]) # ev)"
proof (cases "call_err env t (OsSymlink linkTarget (Join [dest, hdr_Name hdr]))")
  case (Some e)
  with hardlink_entry [OF assms, of env hl fp dest uid gid d t] show ?thesis
    by (simp del: Join.simps)
next
  case None
  let ?c = "OsSymlink linkTarget (Join [dest, hdr_Name hdr])"
  obtain r d' t' where
    rest: "extract_entries env hl fp dest uid gid rest tail_err d (t @ [?c]) = (r, d', t')"
    by (cases "extract_entries env hl fp dest uid gid rest tail_err d (t @ [?c])")
  from extract_entries_extends [OF rest] obtain ev where "t' = (t @ [?c]) @ ev" by blast
  with None hardlink_entry [OF assms, of env hl fp dest uid gid d t] rest show ?thesis
    by (simp del: Join.simps)
qed

lemma hardlink_entry_calls:
  assumes "hdr_Typeflag hdr = TypeLink"
      and "extract_entry env hl fp dest uid gid hdr d t = (r, d', t')"
  shows "(t' = t \<or> t' = t @ [OsSymlink (fst (Rel (Dir (hdr_Name hdr)) (hdr_Linkname hdr)))
                               (Join [dest, hdr_Name hdr])])
         \<and> (r = None \<longrightarrow>
              snd (Rel (Dir (hdr_Name hdr)) (hdr_Linkname hdr)) = None
              \<and> t' = t @ [OsSymlink (fst (Rel (Dir (hdr_Name hdr)) (hdr_Linkname hdr)))
                             (Join [dest, hdr_Name hdr])])"
  using assms
  by (auto simp: extract_entry_def Let_def TypeLink_def TypeSymlink_def
        split: option.splits prod.splits simp del: Join.simps)

lemma hardlink_entry_unresolvable:
  assumes "hdr_Typeflag hdr = TypeLink"
      and "Rel (Dir (hdr_Name hdr)) (hdr_Linkname hdr) = (linkTarget, Some err)"
  shows "extract_entry env hl fp dest uid gid hdr d t =
           (Some (Errorf ''Unable to resolve relative path for hardlink %s (to %s) when unpacking %s: %s''
                    [ArgS (Join [dest, hdr_Name hdr]), ArgS (hdr_Linkname hdr), ArgS fp,
                     ArgE err]), d, t)"
  using assms
  by (simp add: extract_entry_def Let_def TypeLink_def TypeSymlink_def del: Join.simps)

text \<open>
  A name that ends in a separator is outside the plain names: for the hard link \<open>link/\<close>
  with the link name \<open>t\<close> below \<open>/d/i\<close>, the symlink is made at \<open>/d/i/link\<close> with the
  target \<open>../t\<close>, which read from the directory of the symlink is \<open>/d/t\<close>, not \<open>/d/i/t\<close>.
\<close>

lemma hardlink_trailing_separator_leaves_destination:
  "Rel (Dir ''link/'') ''t'' = (''../t'', None)
   \<and> Join [''/d/i'', ''link/''] = ''/d/i/link''
   \<and> Join [Dir (Join [''/d/i'', ''link/'']), ''../t''] = ''/d/t''
   \<and> Join [''/d/i'', ''t''] = ''/d/i/t''"
  by (simp add: Rel_def Dir_def Clean_def rel_elems_def Let_def)

text \<open>
  C6, amended. For a header of type hard link whose link name \<open>filepath.Rel\<close> can make
  relative to the directory of the header's name, the next call of the extraction is
  \<open>os.Symlink\<close> of that relative path at the destination path of the entry (the destination
  joined with the header's name), and no call creates a hard link; when the symlink call
  succeeds the loop goes on, when it fails the loop returns the wrapped error. When
  \<open>filepath.Rel\<close> cannot make the link name relative (an absolute link name under a
  relative entry name), the loop returns the wrapped error and makes no call: nothing is
  created for the entry. Whatever the header, the only call made for it is that symlink.
  When the name and the link name are plain names joined by separators, \<open>filepath.Rel\<close>
  succeeds and its target, read from the directory of the symlink, is the destination
  joined with the link name, for every destination; so the entry \<open>a/c/link\<close> with the
  link name \<open>a/b/target\<close> becomes the symlink \<open>../b/target\<close> at the destination joined
  with \<open>a/c/link\<close>, which resolves to the destination joined with \<open>a/b/target\<close>.
\<close>

theorem hardlink_becomes_relative_symlink:
  assumes "hdr_Typeflag hdr = TypeLink"
  shows "(Rel (Dir (hdr_Name hdr)) (hdr_Linkname hdr) = (linkTarget, None) \<longrightarrow>
            (\<exists>r d' ev. extract_entries env hl fp dest uid gid (hdr # rest) tail_err d t =
                (r, d', t @ OsSymlink linkTarget (Join [dest, hdr_Name hdr]) # ev))
            \<and> extract_entry env hl fp dest uid gid hdr d t =
                (case call_err env t (OsSymlink linkTarget (Join [dest, hdr_Name hdr])) of
                   None \<Rightarrow> (None, d, t @ [OsSymlink linkTarget (Join [dest, hdr_Name hdr])])
                 | Some err \<Rightarrow>
                     (Some (Errorf ''Unable to create destination symlink %s (resolved %s to %s) when unpacking %s: %s''
                              [ArgS (Join [dest, hdr_Name hdr]), ArgS linkTarget,
                               ArgS (hdr_Linkname hdr), ArgS fp, ArgE err]),
                      d, t @ [OsSymlink linkTarget (Join [dest, hdr_Name hdr])])))
         \<and> (Rel (Dir (hdr_Name hdr)) (hdr_Linkname hdr) = (linkTarget, Some err) \<longrightarrow>
              extract_entries env hl fp dest uid gid (hdr # rest) tail_err d t =
                (Some (Errorf ''Unable to resolve relative path for hardlink %s (to %s) when unpacking %s: %s''
                         [ArgS (Join [dest, hdr_Name hdr]), ArgS (hdr_Linkname hdr), ArgS fp,
                          ArgE err]), d, t))
         \<and> (snd (snd (extract_entry env hl fp dest uid gid hdr d t)) = t
              \<or> snd (snd (extract_entry env hl fp dest uid gid hdr d t)) =
                  t @ [OsSymlink (fst (Rel (Dir (hdr_Name hdr)) (hdr_Linkname hdr)))
                         (Join [dest, hdr_Name hdr])])
         \<and> (fst (extract_entry env hl fp dest uid gid hdr d t) = None \<longrightarrow>
              snd (Rel (Dir (hdr_Name hdr)) (hdr_Linkname hdr)) = None
              \<and> snd (snd (extract_entry env hl fp dest uid gid hdr d t)) =
                  t @ [OsSymlink (fst (Rel (Dir (hdr_Name hdr)) (hdr_Linkname hdr)))
                         (Join [dest, hdr_Name hdr])])
         \<and> (hdr_Name hdr = joinSep ns \<and> hdr_Linkname hdr = joinSep ls
              \<and> ns \<noteq> [] \<and> ls \<noteq> [] \<and> (\<forall>p\<in>set ns. plain p) \<and> (\<forall>p\<in>set ls. plain p) \<longrightarrow>
              (\<exists>target.
                 Rel (Dir (hdr_Name hdr)) (hdr_Linkname hdr) = (target, None)
                 \<and> (\<exists>r d' ev. extract_entries env hl fp dest uid gid (hdr # rest) tail_err d t =
                       (r, d', t @ OsSymlink target (Join [dest, hdr_Name hdr]) # ev))
                 \<and> Join [Dir (Join [dest, hdr_Name hdr]), target]
                     = Join [dest, hdr_Linkname hdr]))
         \<and> (hdr_Name hdr = ''a/c/link'' \<and> hdr_Linkname hdr = ''a/b/target'' \<longrightarrow>
              (\<exists>r d' ev. extract_entries env hl fp dest uid gid (hdr # rest) tail_err d t =
                  (r, d', t @ OsSymlink ''../b/target'' (Join [dest, ''a/c/link'']) # ev))
              \<and> Join [Dir (Join [dest, ''a/c/link'']), ''../b/target'']
                  = Join [dest, ''a/b/target''])"
proof -
  have A: "Rel (Dir (hdr_Name hdr)) (hdr_Linkname hdr) = (linkTarget, None) \<longrightarrow>
            (\<exists>r d' ev. extract_entries env hl fp dest uid gid (hdr # rest) tail_err d t =
                (r, d', t @ OsSymlink linkTarget (Join [dest, hdr_Name hdr]) # ev))
            \<and> extract_entry env hl fp dest uid gid hdr d t =
                (case call_err env t (OsSymlink linkTarget (Join [dest, hdr_Name hdr])) of
                   None \<Rightarrow> (None, d, t @ [OsSymlink linkTarget (Join [dest, hdr_Name hdr])])
                 | Some err \<Rightarrow>
                     (Some (Errorf ''Unable to create destination symlink %s (resolved %s to %s) when unpacking %s: %s''
                              [ArgS (Join [dest, hdr_Name hdr]), ArgS linkTarget,
                               ArgS (hdr_Linkname hdr), ArgS fp, ArgE err]),
                      d, t @ [OsSymlink linkTarget (Join [dest, hdr_Name hdr])]))"
    using hardlink_entries [OF assms] hardlink_entry [OF assms] by blast
  have B: "Rel (Dir (hdr_Name hdr)) (hdr_Linkname hdr) = (linkTarget, Some err) \<longrightarrow>
              extract_entries env hl fp dest uid gid (hdr # rest) tail_err d t =
                (Some (Errorf ''Unable to resolve relative path for hardlink %s (to %s) when unpacking %s: %s''
                         [ArgS (Join [dest, hdr_Name hdr]), ArgS (hdr_Linkname hdr), ArgS fp,
                          ArgE err]), d, t)"
    using hardlink_entry_unresolvable [OF assms, of linkTarget err env hl fp dest uid gid d t]
    by (simp del: Join.simps)
  obtain r0 d0 t0 where e0: "extract_entry env hl fp dest uid gid hdr d t = (r0, d0, t0)"
    by (cases "extract_entry env hl fp dest uid gid hdr d t")
  note calls = hardlink_entry_calls [OF assms e0]
  have C: "snd (snd (extract_entry env hl fp dest uid gid hdr d t)) = t
              \<or> snd (snd (extract_entry env hl fp dest uid gid hdr d t)) =
                  t @ [OsSymlink (fst (Rel (Dir (hdr_Name hdr)) (hdr_Linkname hdr)))
                         (Join [dest, hdr_Name hdr])]"
    using calls e0 by (simp del: Join.simps)
  have D: "fst (extract_entry env hl fp dest uid gid hdr d t) = None \<longrightarrow>
              snd (Rel (Dir (hdr_Name hdr)) (hdr_Linkname hdr)) = None
              \<and> snd (snd (extract_entry env hl fp dest uid gid hdr d t)) =
                  t @ [OsSymlink (fst (Rel (Dir (hdr_Name hdr)) (hdr_Linkname hdr)))
                         (Join [dest, hdr_Name hdr])]"
    using calls e0 by (simp del: Join.simps)
  have E: "hdr_Name hdr = joinSep ns \<and> hdr_Linkname hdr = joinSep ls
              \<and> ns \<noteq> [] \<and> ls \<noteq> [] \<and> (\<forall>p\<in>set ns. plain p) \<and> (\<forall>p\<in>set ls. plain p) \<longrightarrow>
              (\<exists>target.
                 Rel (Dir (hdr_Name hdr)) (hdr_Linkname hdr) = (target, None)
                 \<and> (\<exists>r d' ev. extract_entries env hl fp dest uid gid (hdr # rest) tail_err d t =
                       (r, d', t @ OsSymlink target (Join [dest, hdr_Name hdr]) # ev))
                 \<and> Join [Dir (Join [dest, hdr_Name hdr]), target]
                     = Join [dest, hdr_Linkname hdr])"
  proof
    assume h: "hdr_Name hdr = joinSep ns \<and> hdr_Linkname hdr = joinSep ls
              \<and> ns \<noteq> [] \<and> ls \<noteq> [] \<and> (\<forall>p\<in>set ns. plain p) \<and> (\<forall>p\<in>set ls. plain p)"
    then obtain target where
      rel: "Rel (Dir (hdr_Name hdr)) (hdr_Linkname hdr) = (target, None)"
      and res: "Join [Dir (Join [dest, hdr_Name hdr]), target] = Join [dest, hdr_Linkname hdr]"
      using hardlink_target_resolves [of ns ls] by auto
    from hardlink_entries [OF assms rel] rel res
    show "\<exists>target.
            Rel (Dir (hdr_Name hdr)) (hdr_Linkname hdr) = (target, None)
            \<and> (\<exists>r d' ev. extract_entries env hl fp dest uid gid (hdr # rest) tail_err d t =
                  (r, d', t @ OsSymlink target (Join [dest, hdr_Name hdr]) # ev))
            \<and> Join [Dir (Join [dest, hdr_Name hdr]), target] = Join [dest, hdr_Linkname hdr]"
      by blast
  qed
  have F: "hdr_Name hdr = ''a/c/link'' \<and> hdr_Linkname hdr = ''a/b/target'' \<longrightarrow>
              (\<exists>r d' ev. extract_entries env hl fp dest uid gid (hdr # rest) tail_err d t =
                  (r, d', t @ OsSymlink ''../b/target'' (Join [dest, ''a/c/link'']) # ev))
              \<and> Join [Dir (Join [dest, ''a/c/link'']), ''../b/target'']
                  = Join [dest, ''a/b/target'']"
  proof
    assume ex: "hdr_Name hdr = ''a/c/link'' \<and> hdr_Linkname hdr = ''a/b/target''"
    then have rel: "Rel (Dir (hdr_Name hdr)) (hdr_Linkname hdr) = (''../b/target'', None)"
      by (simp add: Rel_example)
    from hardlink_entries [OF assms rel, of env hl fp dest uid gid rest tail_err d t] ex
    have "\<exists>r d' ev. extract_entries env hl fp dest uid gid (hdr # rest) tail_err d t =
          (r, d', t @ OsSymlink ''../b/target'' (Join [dest, ''a/c/link'']) # ev)"
      by (simp del: Join.simps)
    then show "(\<exists>r d' ev. extract_entries env hl fp dest uid gid (hdr # rest) tail_err d t =
                  (r, d', t @ OsSymlink ''../b/target'' (Join [dest, ''a/c/link'']) # ev))
              \<and> Join [Dir (Join [dest, ''a/c/link'']), ''../b/target'']
                  = Join [dest, ''a/b/target'']"
      using hardlink_example_resolves [of dest] by blast
  qed
  from A B C D E F show ?thesis by (intro conjI)
qed

lemma Rel_abs_link_hdr:
  "Rel (Dir (hdr_Name abs_link_hdr)) (hdr_Linkname abs_link_hdr) =
     ([], Some (OSError OtherKind ''Rel: can't make /abs/target relative to .''))"
  by (simp add: abs_link_hdr_def Rel_def Dir_def Clean_def rel_elems_def Let_def)

text \<open>
  The claim as it was worded fails at the hard link \<open>top\<close> with the link name
  \<open>/abs/target\<close>: on the host where every call succeeds the extraction makes no call for
  the header, so no symlink exists for it, and returns the error of \<open>filepath.Rel\<close> wrapped.
\<close>

theorem hardlink_with_absolute_link_name_creates_nothing:
  "hdr_Typeflag abs_link_hdr = TypeLink
   \<and> extract_entries env_ok demo_hl ''/tmp/myapp_1.2.3123456/myapp_1.2.3''
        ''/data/pods/myapp/installs/myapp_1.2.3'' 1000 1000 [abs_link_hdr] None [] [] =
       (Some (Errorf ''Unable to resolve relative path for hardlink %s (to %s) when unpacking %s: %s''
                [ArgS ''/data/pods/myapp/installs/myapp_1.2.3/top'', ArgS ''/abs/target'',
                 ArgS ''/tmp/myapp_1.2.3123456/myapp_1.2.3'',
                 ArgE (OSError OtherKind ''Rel: can't make /abs/target relative to .'')]),
        [], [])"
proof -
  have flag: "hdr_Typeflag abs_link_hdr = TypeLink" by (simp add: abs_link_hdr_def)
  have names: "hdr_Name abs_link_hdr = ''top''" "hdr_Linkname abs_link_hdr = ''/abs/target''"
    by (simp_all add: abs_link_hdr_def)
  have path: "Join [''/data/pods/myapp/installs/myapp_1.2.3'', ''top'']
                = ''/data/pods/myapp/installs/myapp_1.2.3/top''"
    by (simp add: Clean_def)
  show ?thesis
    using hardlink_entry_unresolvable [OF flag Rel_abs_link_hdr, of env_ok demo_hl
        "''/tmp/myapp_1.2.3123456/myapp_1.2.3''" "''/data/pods/myapp/installs/myapp_1.2.3''"
        1000 1000 "[]" "[]"]
    by (simp add: flag names path del: Join.simps)
qed

theorem hardlink_becomes_relative_symlink_witness:
  "hdr_Typeflag link_hdr = TypeLink
   \<and> hdr_Name link_hdr = joinSep [''a'', ''c'', ''link'']
   \<and> hdr_Linkname link_hdr = joinSep [''a'', ''b'', ''target'']
   \<and> plain ''a'' \<and> plain ''b'' \<and> plain ''c'' \<and> plain ''link'' \<and> plain ''target''
   \<and> hdr_Name link_hdr = ''a/c/link'' \<and> hdr_Linkname link_hdr = ''a/b/target''
   \<and> Rel (Dir (hdr_Name link_hdr)) (hdr_Linkname link_hdr) = (''../b/target'', None)
   \<and> extract_entry env_ok demo_hl ''/tmp/myapp_1.2.3123456/myapp_1.2.3''
        ''/data/pods/myapp/installs/myapp_1.2.3'' 1000 1000 link_hdr [] [] =
       (None, [],
        [OsSymlink ''../b/target'' ''/data/pods/myapp/installs/myapp_1.2.3/a/c/link''])
   \<and> Join [Dir ''/data/pods/myapp/installs/myapp_1.2.3/a/c/link'', ''../b/target'']
       = ''/data/pods/myapp/installs/myapp_1.2.3/a/b/target''
   \<and> hdr_Typeflag abs_link_hdr = TypeLink
   \<and> Rel (Dir (hdr_Name abs_link_hdr)) (hdr_Linkname abs_link_hdr) =
       ([], Some (OSError OtherKind ''Rel: can't make /abs/target relative to .''))
   \<and> fst (extract_entries env_ok demo_hl ''/tmp/myapp_1.2.3123456/myapp_1.2.3''
             ''/data/pods/myapp/installs/myapp_1.2.3'' 1000 1000 [abs_link_hdr] None [] []) =
       Some (Errorf ''Unable to resolve relative path for hardlink %s (to %s) when unpacking %s: %s''
               [ArgS ''/data/pods/myapp/installs/myapp_1.2.3/top'', ArgS ''/abs/target'',
                ArgS ''/tmp/myapp_1.2.3123456/myapp_1.2.3'',
                ArgE (OSError OtherKind ''Rel: can't make /abs/target relative to .'')])"
proof -
  have flag: "hdr_Typeflag link_hdr = TypeLink" by (simp add: link_hdr_def)
  have names: "hdr_Name link_hdr = ''a/c/link''" "hdr_Linkname link_hdr = ''a/b/target''"
    by (simp_all add: link_hdr_def)
  have plains: "plain ''a''" "plain ''b''" "plain ''c''" "plain ''link''" "plain ''target''"
    by (simp_all add: plain_def)
  have joined: "joinSep [''a'', ''c'', ''link''] = ''a/c/link''"
    "joinSep [''a'', ''b'', ''target''] = ''a/b/target''"
    by simp_all
  have path: "Join [''/data/pods/myapp/installs/myapp_1.2.3'', ''a/c/link'']
                = ''/data/pods/myapp/installs/myapp_1.2.3/a/c/link''"
    by (simp add: Clean_def)
  have target: "Join [''/data/pods/myapp/installs/myapp_1.2.3'', ''a/b/target'']
                = ''/data/pods/myapp/installs/myapp_1.2.3/a/b/target''"
    by (simp add: Clean_def)
  have ok: "call_err env_ok [] c = None" for c by (simp add: env_ok_def)
  have aflag: "hdr_Typeflag abs_link_hdr = TypeLink" by (simp add: abs_link_hdr_def)
  have anames: "hdr_Name abs_link_hdr = ''top''" "hdr_Linkname abs_link_hdr = ''/abs/target''"
    by (simp_all add: abs_link_hdr_def)
  have apath: "Join [''/data/pods/myapp/installs/myapp_1.2.3'', ''top'']
                = ''/data/pods/myapp/installs/myapp_1.2.3/top''"
    by (simp add: Clean_def)
  have first: "extract_entry env_ok demo_hl ''/tmp/myapp_1.2.3123456/myapp_1.2.3''
        ''/data/pods/myapp/installs/myapp_1.2.3'' 1000 1000 link_hdr [] [] =
       (None, [],
        [OsSymlink ''../b/target'' ''/data/pods/myapp/installs/myapp_1.2.3/a/c/link''])
     \<and> Join [Dir ''/data/pods/myapp/installs/myapp_1.2.3/a/c/link'', ''../b/target'']
       = ''/data/pods/myapp/installs/myapp_1.2.3/a/b/target''"
    using hardlink_becomes_relative_symlink [OF flag, where linkTarget = "''../b/target''"
        and env = env_ok and hl = demo_hl and fp = "''/tmp/myapp_1.2.3123456/myapp_1.2.3''"
        and dest = "''/data/pods/myapp/installs/myapp_1.2.3''" and uid = 1000 and gid = 1000
        and rest = "[]" and tail_err = None and d = "[]" and t = "[]"
        and ns = "[''a'', ''c'', ''link'']" and ls = "[''a'', ''b'', ''target'']"]
    by (simp add: flag names Rel_example path target ok plains joined del: Join.simps)
  have second: "fst (extract_entries env_ok demo_hl ''/tmp/myapp_1.2.3123456/myapp_1.2.3''
             ''/data/pods/myapp/installs/myapp_1.2.3'' 1000 1000 [abs_link_hdr] None [] []) =
       Some (Errorf ''Unable to resolve relative path for hardlink %s (to %s) when unpacking %s: %s''
               [ArgS ''/data/pods/myapp/installs/myapp_1.2.3/top'', ArgS ''/abs/target'',
                ArgS ''/tmp/myapp_1.2.3123456/myapp_1.2.3'',
                ArgE (OSError OtherKind ''Rel: can't make /abs/target relative to .'')])"
    using hardlink_becomes_relative_symlink [OF aflag, where linkTarget = "[]"
        and err = "OSError OtherKind ''Rel: can't make /abs/target relative to .''"
        and env = env_ok and hl = demo_hl and fp = "''/tmp/myapp_1.2.3123456/myapp_1.2.3''"
        and dest = "''/data/pods/myapp/installs/myapp_1.2.3''" and uid = 1000 and gid = 1000
        and rest = "[]" and tail_err = None and d = "[]" and t = "[]"]
      Rel_abs_link_hdr
    by (simp add: anames apath del: Join.simps)
  show ?thesis
    using first second
    by (simp add: flag names plains joined Rel_example aflag Rel_abs_link_hdr del: Join.simps)
qed

subsection \<open>The pointers current and last\<close>






end
